theory Spec2Isabelle
  imports Complex_Main "HOL-Library.Word" "HOL-Library.Signed_Division"
begin

section \<open>The engine's map model (helpers.h, helpers.cpp)\<close>

text \<open>
  The engine stores every coordinate and height as a C++ \<^verbatim>\<open>double\<close>. They are modelled
  as \<^typ>\<open>real\<close>: arithmetic is exact, there is no rounding, no NaN and no infinity.
  Where the source can divide by zero or starts from \<^verbatim>\<open>infinity()\<close> the model
  writes the IEEE outcome out as a case of its own. C++ \<^verbatim>\<open>int\<close> values that
  only count or index are modelled as \<^typ>\<open>int\<close>.
\<close>

record Wall =
  x1 :: real
  y1 :: real
  x2 :: real
  y2 :: real
  isPortal :: bool
  adjoiningSector :: int

record Sector =
  walls :: "Wall list"
  floorHeight :: real
  ceilingHeight :: real

text \<open>
  \<^verbatim>\<open>sectors[i]\<close> on a \<^verbatim>\<open>std::vector\<close> is undefined behaviour out of range, and so
  is a write through \<^verbatim>\<open>surface->pixels\<close> outside the pixel buffer. The model makes
  every such access a checked one whose failure is a value: \<open>OutOfBounds\<close> for a
  vector, \<open>PixelOutOfBounds\<close> for the pixel buffer.
\<close>

datatype fault = OutOfBounds | PixelOutOfBounds

definition vecAt :: "'a list \<Rightarrow> int \<Rightarrow> fault + 'a" where
  "vecAt xs i = (if 0 \<le> i \<and> i < int (length xs) then Inr (xs ! nat i) else Inl OutOfBounds)"

subsection \<open>intersectRayWithSegment\<close>

definition rayDenom :: "real \<Rightarrow> real \<Rightarrow> real \<Rightarrow> real \<Rightarrow> real \<Rightarrow> real \<Rightarrow> real" where
  "rayDenom rayDX rayDY ax ay bx by = rayDX * (by - ay) - rayDY * (bx - ax)"

definition rayParam :: "real \<Rightarrow> real \<Rightarrow> real \<Rightarrow> real \<Rightarrow> real \<Rightarrow> real \<Rightarrow> real \<Rightarrow> real \<Rightarrow> real" where
  "rayParam rayX rayY rayDX rayDY ax ay bx by =
     ((ax - rayX) * (by - ay) - (ay - rayY) * (bx - ax)) / rayDenom rayDX rayDY ax ay bx by"

definition segParam :: "real \<Rightarrow> real \<Rightarrow> real \<Rightarrow> real \<Rightarrow> real \<Rightarrow> real \<Rightarrow> real \<Rightarrow> real \<Rightarrow> real" where
  "segParam rayX rayY rayDX rayDY ax ay bx by =
     ((ax - rayX) * rayDY - (ay - rayY) * rayDX) / rayDenom rayDX rayDY ax ay bx by"

text \<open>The \<^verbatim>\<open>bool\<close> result and the \<^verbatim>\<open>outDist\<close> reference become one option.\<close>

definition intersectRayWithSegment ::
  "real \<Rightarrow> real \<Rightarrow> real \<Rightarrow> real \<Rightarrow> real \<Rightarrow> real \<Rightarrow> real \<Rightarrow> real \<Rightarrow> real option" where
  "intersectRayWithSegment rayX rayY rayDX rayDY ax ay bx by =
     (let denom = rayDenom rayDX rayDY ax ay bx by in
      if \<bar>denom\<bar> < 0.000001 then None
      else
        let t = rayParam rayX rayY rayDX rayDY ax ay bx by;
            u = segParam rayX rayY rayDX rayDY ax ay bx by
        in if 0 < t \<and> 0 \<le> u \<and> u \<le> 1 then Some t else None)"

subsection \<open>getSectorForPosition\<close>

text \<open>
  The condition of the inner \<^verbatim>\<open>if\<close>. The divisor \<^verbatim>\<open>y2 - y1 + 1e-6\<close> can be zero; the
  \<^verbatim>\<open>&&\<close> has then already established \<^verbatim>\<open>y1 != y2\<close>, and the IEEE quotient is
  \<^verbatim>\<open>+inf\<close> for a positive dividend (the comparison holds) and \<^verbatim>\<open>-inf\<close> or NaN
  otherwise (it fails).
\<close>

definition edgeCrossed :: "real \<Rightarrow> real \<Rightarrow> Wall \<Rightarrow> bool" where
  "edgeCrossed x y w =
     (((y1 w > y) \<noteq> (y2 w > y)) \<and>
      (let n = (x2 w - x1 w) * (y - y1 w); d = y2 w - y1 w + 0.000001
       in if d = 0 then 0 < n else x < n / d + x1 w))"

text \<open>The inner loop: the value of \<^verbatim>\<open>crossings\<close> after all walls of one sector.\<close>

definition crossings :: "real \<Rightarrow> real \<Rightarrow> Wall list \<Rightarrow> int" where
  "crossings x y ws = fold (\<lambda>w c. if edgeCrossed x y w then c + 1 else c) ws 0"

text \<open>The outer loop from index \<open>i\<close> on, over the sectors not yet visited.\<close>

fun sectorScan :: "real \<Rightarrow> real \<Rightarrow> Sector list \<Rightarrow> int \<Rightarrow> int" where
  "sectorScan x y [] i = - 1"
| "sectorScan x y (s # ss) i =
     (if crossings x y (walls s) mod 2 = 1 then i else sectorScan x y ss (i + 1))"

definition getSectorForPosition :: "Sector list \<Rightarrow> real \<Rightarrow> real \<Rightarrow> int" where
  "getSectorForPosition sectors x y = sectorScan x y sectors 0"

subsection \<open>pointToSegmentDistance and isMovementBlocked\<close>

definition pointToSegmentDistance ::
  "real \<Rightarrow> real \<Rightarrow> real \<Rightarrow> real \<Rightarrow> real \<Rightarrow> real \<Rightarrow> real" where
  "pointToSegmentDistance px py ax ay bx by =
     (let dx = bx - ax; dy = by - ay in
      if dx = 0 \<and> dy = 0 then sqrt ((px - ax) * (px - ax) + (py - ay) * (py - ay))
      else
        let t0 = ((px - ax) * dx + (py - ay) * dy) / (dx * dx + dy * dy);
            t = (if t0 < 0 then 0 else if t0 > 1 then 1 else t0);
            closestX = ax + t * dx;
            closestY = ay + t * dy
        in sqrt ((px - closestX) * (px - closestX) + (py - closestY) * (py - closestY)))"

definition COLLISION_RADIUS :: real where
  "COLLISION_RADIUS = 0.1"

text \<open>The loop over the walls of the containing sector, with its early \<^verbatim>\<open>return true\<close>.\<close>

fun wallBlocks :: "real \<Rightarrow> real \<Rightarrow> Wall list \<Rightarrow> bool" where
  "wallBlocks newX newY [] = False"
| "wallBlocks newX newY (w # ws) =
     (if \<not> isPortal w \<and>
         pointToSegmentDistance newX newY (x1 w) (y1 w) (x2 w) (y2 w) < COLLISION_RADIUS
      then True else wallBlocks newX newY ws)"

definition isMovementBlocked :: "Sector list \<Rightarrow> real \<Rightarrow> real \<Rightarrow> fault + bool" where
  "isMovementBlocked sectors newX newY =
     (let sector = getSectorForPosition sectors newX newY in
      if sector = - 1 then Inr True
      else case vecAt sectors sector of
             Inl e \<Rightarrow> Inl e
           | Inr s \<Rightarrow> Inr (wallBlocks newX newY (walls s)))"

section \<open>The portal raycaster (main.cpp)\<close>

definition SCREEN_WIDTH :: int where
  "SCREEN_WIDTH = 1080"

definition SCREEN_HEIGHT :: int where
  "SCREEN_HEIGHT = 720"

definition playerEyeHeightOffset :: real where
  "playerEyeHeightOffset = 1.0"

definition MAX_PORTAL_DEPTH :: int where
  "MAX_PORTAL_DEPTH = 10"

text \<open>
  A C++ \<^verbatim>\<open>int\<close> has 32 bits. Signed overflow of \<^verbatim>\<open>int\<close> arithmetic is written as the
  two's-complement wrap-around.
\<close>

definition INT_MAX :: int where
  "INT_MAX = 2147483647"

definition INT_MIN :: int where
  "INT_MIN = - 2147483648"

definition wrap32 :: "int \<Rightarrow> int" where
  "wrap32 k = (k + 2147483648) mod 4294967296 - 2147483648"

text \<open>
  The cast \<^verbatim>\<open>(int)\<close> of a \<^verbatim>\<open>double\<close> truncates towards zero. When the truncated value
  is out of the range of \<^verbatim>\<open>int\<close> the language leaves the cast undefined; the model
  returns what the conversion instruction of x86-64 returns there, \<^verbatim>\<open>INT_MIN\<close>.
\<close>

definition toInt :: "real \<Rightarrow> int" where
  "toInt r =
     (let t = (if 0 \<le> r then \<lfloor>r\<rfloor> else \<lceil>r\<rceil>)
      in if INT_MIN \<le> t \<and> t \<le> INT_MAX then t else INT_MIN)"

subsection \<open>drawVerticalLine\<close>

text \<open>
  \<^verbatim>\<open>SDL_MapRGB(surface->format, r, g, b)\<close> is kept as the triple it is given. Of an
  \<^verbatim>\<open>SDL_Surface\<close> the model keeps what \<^verbatim>\<open>drawVerticalLine\<close> uses: the pixel buffer as a
  function from the index of a \<^verbatim>\<open>Uint32\<close> to its colour, the pitch (bytes in a row) and
  the number of rows \<^verbatim>\<open>h\<close>. The buffer has \<open>h * pitch\<close> bytes, so the \<^verbatim>\<open>Uint32\<close> at index
  \<open>i\<close> lies in it when \<open>0 \<le> i\<close> and \<open>4 * i + 4 \<le> h * pitch\<close>.
\<close>

type_synonym Color = "nat \<times> nat \<times> nat"

record Surface =
  pixels :: "int \<Rightarrow> Color"
  pitch :: int
  height :: int

definition inBuffer :: "Surface \<Rightarrow> int \<Rightarrow> bool" where
  "inBuffer surface i = (0 \<le> i \<and> 4 * i + 4 \<le> height surface * pitch surface)"

text \<open>
  \<^verbatim>\<open>drawVerticalLine(surface, x, start, end, color)\<close>: the loop
  \<^verbatim>\<open>for (int y = start; y < end; y++)\<close> from the row \<open>y\<close> on. Each pass writes
  \<^verbatim>\<open>pixels[y * (surface->pitch / 4) + x]\<close> with no test of \<open>x\<close> or \<open>y\<close>; the model ends
  with \<open>PixelOutOfBounds\<close> at the first write that is not in the buffer. The index is
  computed without wrap-around: an index that overflows \<^verbatim>\<open>int\<close> is outside every buffer
  of less than \<open>2^31\<close> pixels and ends in the same fault.
\<close>

function drawVerticalLine :: "Surface \<Rightarrow> int \<Rightarrow> int \<Rightarrow> int \<Rightarrow> Color \<Rightarrow> fault + Surface" where
  "drawVerticalLine surface x y finish c =
     (if y < finish then
        (if inBuffer surface (y * (pitch surface sdiv 4) + x)
         then drawVerticalLine
                (surface\<lparr>pixels := (pixels surface)(y * (pitch surface sdiv 4) + x := c)\<rparr>)
                x (y + 1) finish c
         else Inl PixelOutOfBounds)
      else Inr surface)"
  by pat_completeness auto
termination
  by (relation "measure (\<lambda>(surface, x, y, finish, c). nat (finish - y))") auto

declare drawVerticalLine.simps [simp del]

text \<open>
  The loop of a column reads nothing that its draw calls write. The model keeps the two
  apart: the loop gives its calls of \<^verbatim>\<open>drawVerticalLine\<close> in the order of issue, each as
  the record of its arguments, and \<open>paint\<close> executes a sequence of calls on a surface, up
  to the first fault.
\<close>

record Draw =
  column :: int
  rowStart :: int
  rowEnd :: int
  color :: Color

fun paint :: "Draw list \<Rightarrow> Surface \<Rightarrow> fault + Surface" where
  "paint [] surface = Inr surface"
| "paint (d # ds) surface =
     (case drawVerticalLine surface (column d) (rowStart d) (rowEnd d) (color d) of
        Inl e \<Rightarrow> Inl e
      | Inr surface' \<Rightarrow> paint ds surface')"

subsection \<open>The scan over all walls of all sectors\<close>

text \<open>
  The three locals \<^verbatim>\<open>closestDist\<close>, \<^verbatim>\<open>hitWall\<close>, \<^verbatim>\<open>hitSectorIndex\<close> are assigned
  together. \<open>None\<close> is their initial state (infinity, \<^verbatim>\<open>nullptr\<close>, -1);
  \<open>Some (closestDist, hitSectorIndex, wi)\<close> says that \<^verbatim>\<open>hitWall\<close> points at wall number
  \<open>wi\<close> of sector \<open>hitSectorIndex\<close>.
\<close>

type_synonym Hit = "real \<times> int \<times> nat"

definition closer :: "real \<Rightarrow> Hit option \<Rightarrow> bool" where
  "closer d best = (case best of None \<Rightarrow> True | Some (closestDist, _, _) \<Rightarrow> d < closestDist)"

definition testWall :: "real \<Rightarrow> real \<Rightarrow> real \<Rightarrow> real \<Rightarrow> int \<Rightarrow> nat \<Rightarrow> Wall \<Rightarrow> Hit option \<Rightarrow> Hit option" where
  "testWall rayX rayY rayDirX rayDirY si wi wall best =
     (case intersectRayWithSegment rayX rayY rayDirX rayDirY (x1 wall) (y1 wall) (x2 wall) (y2 wall) of
        None \<Rightarrow> best
      | Some d \<Rightarrow> if closer d best then Some (d, si, wi) else best)"

fun scanWalls :: "real \<Rightarrow> real \<Rightarrow> real \<Rightarrow> real \<Rightarrow> int \<Rightarrow> Wall list \<Rightarrow> nat \<Rightarrow> Hit option \<Rightarrow> Hit option" where
  "scanWalls rayX rayY rayDirX rayDirY si [] wi best = best"
| "scanWalls rayX rayY rayDirX rayDirY si (wall # ws) wi best =
     scanWalls rayX rayY rayDirX rayDirY si ws (wi + 1)
       (testWall rayX rayY rayDirX rayDirY si wi wall best)"

fun scanSectors :: "real \<Rightarrow> real \<Rightarrow> real \<Rightarrow> real \<Rightarrow> Sector list \<Rightarrow> int \<Rightarrow> Hit option \<Rightarrow> Hit option" where
  "scanSectors rayX rayY rayDirX rayDirY [] si best = best"
| "scanSectors rayX rayY rayDirX rayDirY (sector # ss) si best =
     scanSectors rayX rayY rayDirX rayDirY ss (si + 1)
       (scanWalls rayX rayY rayDirX rayDirY si (walls sector) 0 best)"

definition nearestHit :: "Sector list \<Rightarrow> real \<Rightarrow> real \<Rightarrow> real \<Rightarrow> real \<Rightarrow> Hit option" where
  "nearestHit sectors rayX rayY rayDirX rayDirY = scanSectors rayX rayY rayDirX rayDirY sectors 0 None"

subsection \<open>One depth step and the loop over the depth\<close>

text \<open>
  The three calls of \<^verbatim>\<open>drawVerticalLine\<close> for one hit, from the line after
  \<^verbatim>\<open>totalDist += closestDist\<close>. In \<^verbatim>\<open>drawStart + lineHeight\<close> the sum is an \<^verbatim>\<open>int\<close>.
\<close>

definition drawHit :: "int \<Rightarrow> real \<Rightarrow> Sector \<Rightarrow> Wall \<Rightarrow> real \<Rightarrow> Draw list" where
  "drawHit x playerHeight sector hitWall totalDist =
     (let ceilingScreenY0 = toInt (real_of_int SCREEN_HEIGHT / 2.0
              - (ceilingHeight sector - playerHeight) * real_of_int SCREEN_HEIGHT / totalDist);
          floorScreenY0 = toInt (real_of_int SCREEN_HEIGHT / 2.0
              + (playerHeight - floorHeight sector) * real_of_int SCREEN_HEIGHT / totalDist);
          ceilingScreenY = max 0 ceilingScreenY0;
          floorScreenY = min (SCREEN_HEIGHT - 1) floorScreenY0;
          lineHeight = toInt (real_of_int SCREEN_HEIGHT / totalDist);
          drawStart = (if floorScreenY < ceilingScreenY
                       then max 0 (SCREEN_HEIGHT sdiv 2 - lineHeight sdiv 2) else ceilingScreenY);
          drawEnd = (if floorScreenY < ceilingScreenY
                     then min (SCREEN_HEIGHT - 1) (wrap32 (drawStart + lineHeight))
                     else floorScreenY);
          wallColor = (if isPortal hitWall then 0 else 255, 105, 180)
      in [\<lparr>column = x, rowStart = 0, rowEnd = ceilingScreenY, color = (100, 100, 255)\<rparr>,
          \<lparr>column = x, rowStart = drawStart, rowEnd = drawEnd, color = wallColor\<rparr>,
          \<lparr>column = x, rowStart = floorScreenY, rowEnd = SCREEN_HEIGHT, color = (100, 255, 100)\<rparr>])"

text \<open>
  The \<^verbatim>\<open>for (depth ...)\<close> loop of one column, from the iteration \<open>depth\<close> on, with the
  bound as a parameter. It returns the draw calls grouped by iteration. The two
  dereferences \<^verbatim>\<open>sectors[hitSectorIndex]\<close> and \<^verbatim>\<open>hitWall->\<close> are checked accesses;
  \<open>Inl\<close> stands for a failed one.
\<close>

function portalLoop ::
  "int \<Rightarrow> Sector list \<Rightarrow> int \<Rightarrow> real \<Rightarrow> real \<Rightarrow> real \<Rightarrow> int \<Rightarrow> real \<Rightarrow> real \<Rightarrow> real
     \<Rightarrow> fault + Draw list list" where
  "portalLoop maxDepth sectors x playerHeight rayDirX rayDirY depth rayX rayY totalDist =
     (if depth < maxDepth then
        (case nearestHit sectors rayX rayY rayDirX rayDirY of
           None \<Rightarrow> Inr []
         | Some (closestDist, hitSectorIndex, wi) \<Rightarrow>
             (case vecAt sectors hitSectorIndex of
                Inl e \<Rightarrow> Inl e
              | Inr sector \<Rightarrow>
                  (case vecAt (walls sector) (int wi) of
                     Inl e \<Rightarrow> Inl e
                   | Inr hitWall \<Rightarrow>
                       (let spans = drawHit x playerHeight sector hitWall (totalDist + closestDist) in
                        if \<not> isPortal hitWall then Inr [spans]
                        else if adjoiningSector hitWall < 0
                                \<or> adjoiningSector hitWall \<ge> int (length sectors) then Inr [spans]
                        else
                          (case portalLoop maxDepth sectors x playerHeight rayDirX rayDirY (depth + 1)
                                  (rayX + rayDirX * (closestDist + 0.01))
                                  (rayY + rayDirY * (closestDist + 0.01))
                                  (totalDist + closestDist) of
                             Inl e \<Rightarrow> Inl e
                           | Inr rest \<Rightarrow> Inr (spans # rest))))))
      else Inr [])"
  by pat_completeness auto
termination
  by (relation "measure (\<lambda>(maxDepth, sectors, x, playerHeight, rayDirX, rayDirY, depth, rayX, rayY, totalDist).
        nat (maxDepth - depth))") auto

declare portalLoop.simps [simp del]

text \<open>The body of the \<^verbatim>\<open>for (x ...)\<close> loop: one screen column.\<close>

definition castColumn ::
  "Sector list \<Rightarrow> real \<Rightarrow> real \<Rightarrow> real \<Rightarrow> real \<Rightarrow> real \<Rightarrow> real \<Rightarrow> real \<Rightarrow> int \<Rightarrow> fault + Draw list list" where
  "castColumn sectors posX posY dirX dirY planeX planeY playerHeight x =
     (let cameraX = 2.0 * real_of_int x / real_of_int SCREEN_WIDTH - 1;
          rayDirX = dirX + planeX * cameraX;
          rayDirY = dirY + planeY * cameraX
      in portalLoop MAX_PORTAL_DEPTH sectors x playerHeight rayDirX rayDirY 0 posX posY 0.0)"

text \<open>
  One pass of the \<^verbatim>\<open>for (x ...)\<close> loop with its writes: the calls of the column are
  executed on the surface in the order of issue. The loop over the columns and
  \<^verbatim>\<open>renderMinimap\<close> are not part of the model.
\<close>

definition renderColumn ::
  "Surface \<Rightarrow> Sector list \<Rightarrow> real \<Rightarrow> real \<Rightarrow> real \<Rightarrow> real \<Rightarrow> real \<Rightarrow> real \<Rightarrow> real \<Rightarrow> int
     \<Rightarrow> fault + Surface" where
  "renderColumn surface sectors posX posY dirX dirY planeX planeY playerHeight x =
     (case castColumn sectors posX posY dirX dirY planeX planeY playerHeight x of
        Inl e \<Rightarrow> Inl e
      | Inr groups \<Rightarrow> paint (concat groups) surface)"

section \<open>Notions used to state the properties\<close>

abbreviation evenOddInside :: "real \<Rightarrow> real \<Rightarrow> Sector \<Rightarrow> bool" where
  "evenOddInside x y s \<equiv> crossings x y (walls s) mod 2 = 1"

text \<open>The result of testing the ray against one wall.\<close>

definition hitOn :: "real \<Rightarrow> real \<Rightarrow> real \<Rightarrow> real \<Rightarrow> Wall \<Rightarrow> real option" where
  "hitOn rayX rayY rayDirX rayDirY w =
     intersectRayWithSegment rayX rayY rayDirX rayDirY (x1 w) (y1 w) (x2 w) (y2 w)"

text \<open>
  The walls in the order in which the two nested loops visit them, each with its sector
  index and its index in the sector, and the order of the visits on these positions.
\<close>

fun wallsOf :: "int \<Rightarrow> nat \<Rightarrow> Wall list \<Rightarrow> (int \<times> nat \<times> Wall) list" where
  "wallsOf si wi [] = []"
| "wallsOf si wi (w # ws) = (si, wi, w) # wallsOf si (wi + 1) ws"

fun allWalls :: "int \<Rightarrow> Sector list \<Rightarrow> (int \<times> nat \<times> Wall) list" where
  "allWalls si [] = []"
| "allWalls si (s # ss) = wallsOf si 0 (walls s) @ allWalls (si + 1) ss"

definition before :: "int \<times> nat \<Rightarrow> int \<times> nat \<Rightarrow> bool" where
  "before p q = (fst p < fst q \<or> (fst p = fst q \<and> snd p < snd q))"

text \<open>
  \<open>best\<close> is the first nearest hit among the visited walls \<open>V\<close>: no visited wall is hit
  nearer, and every wall visited earlier is hit strictly farther.
\<close>

definition firstNearest ::
  "real \<Rightarrow> real \<Rightarrow> real \<Rightarrow> real \<Rightarrow> (int \<times> nat \<times> Wall) set \<Rightarrow> Hit option \<Rightarrow> bool" where
  "firstNearest rayX rayY rayDirX rayDirY V best =
     (case best of
        None \<Rightarrow> (\<forall>(sj, wj, w) \<in> V. hitOn rayX rayY rayDirX rayDirY w = None)
      | Some (d, si, wi) \<Rightarrow>
          (\<exists>w. (si, wi, w) \<in> V \<and> hitOn rayX rayY rayDirX rayDirY w = Some d) \<and>
          (\<forall>(sj, wj, w) \<in> V. \<forall>d'. hitOn rayX rayY rayDirX rayDirY w = Some d' \<longrightarrow>
               d \<le> d' \<and> (before (sj, wj) (si, wi) \<longrightarrow> d < d')))"

text \<open>
  The screen rows between which a sector is seen from the eye height \<open>ph\<close> at the
  distance \<open>D\<close>: the ceiling edge, not above row 0, and the floor edge, not below the last
  row.
\<close>

definition ceilingRow :: "real \<Rightarrow> Sector \<Rightarrow> real \<Rightarrow> int" where
  "ceilingRow ph s D = max 0 (toInt (360 - (ceilingHeight s - ph) * 720 / D))"

definition floorRow :: "real \<Rightarrow> Sector \<Rightarrow> real \<Rightarrow> int" where
  "floorRow ph s D = min 719 (toInt (360 + (ph - floorHeight s) * 720 / D))"

text \<open>The surface has room for the screen: at least 1080 pixels in a row and 720 rows.\<close>

definition holdsScreen :: "Surface \<Rightarrow> bool" where
  "holdsScreen surface = (SCREEN_WIDTH \<le> pitch surface sdiv 4 \<and> SCREEN_HEIGHT \<le> height surface)"

subsection \<open>Maps used as concrete inputs\<close>

definition mkWall :: "real \<Rightarrow> real \<Rightarrow> real \<Rightarrow> real \<Rightarrow> bool \<Rightarrow> int \<Rightarrow> Wall" where
  "mkWall ax ay bx by p adj =
     \<lparr>x1 = ax, y1 = ay, x2 = bx, y2 = by, isPortal = p, adjoiningSector = adj\<rparr>"

text \<open>A room of 5 by 5 units whose wall from (0,0) to (0,5) is solid or a portal.\<close>

definition collisionRoom :: "bool \<Rightarrow> Sector" where
  "collisionRoom p =
     \<lparr>walls = [mkWall 0 0 0 5 p (- 1), mkWall 0 5 5 5 False (- 1),
               mkWall 5 5 5 0 False (- 1), mkWall 5 0 0 0 False (- 1)],
      floorHeight = 0, ceilingHeight = 3\<rparr>"

text \<open>
  Two square sectors that share the portal wall from (2,0) to (2,2); the solid far wall
  of the second is 2 units behind the portal.
\<close>

definition roomA :: Sector where
  "roomA = \<lparr>walls = [mkWall 0 0 2 0 False (- 1), mkWall 2 0 2 2 True 1,
                      mkWall 2 2 0 2 False (- 1), mkWall 0 2 0 0 False (- 1)],
            floorHeight = 0, ceilingHeight = 3\<rparr>"

definition roomB :: Sector where
  "roomB = \<lparr>walls = [mkWall 2 0 4 0 False (- 1), mkWall 4 0 4 2 False (- 1),
                      mkWall 4 2 2 2 False (- 1), mkWall 2 2 2 0 True 0],
            floorHeight = 0, ceilingHeight = 3\<rparr>"

text \<open>
  A corridor of twelve unit squares in a row. Neighbours are linked by portals, so a ray
  along the corridor crosses eleven portals before it meets the solid end wall.
\<close>

definition corridorSector :: "int \<Rightarrow> Sector" where
  "corridorSector i =
     \<lparr>walls = [mkWall (real_of_int i) 0 (real_of_int i + 1) 0 False (- 1),
               mkWall (real_of_int i + 1) 0 (real_of_int i + 1) 1 (i < 11)
                 (if i < 11 then i + 1 else - 1),
               mkWall (real_of_int i + 1) 1 (real_of_int i) 1 False (- 1),
               mkWall (real_of_int i) 1 (real_of_int i) 0 (0 < i) (i - 1)],
      floorHeight = 0, ceilingHeight = 3\<rparr>"

definition corridor :: "Sector list" where
  "corridor = map corridorSector [0, 1, 2, 3, 4, 5, 6, 7, 8, 9, 10, 11]"

text \<open>A room whose portal wall refers to a sector that does not exist.\<close>

definition danglingRoom :: "int \<Rightarrow> Sector" where
  "danglingRoom adj =
     \<lparr>walls = [mkWall 0 0 2 0 False (- 1), mkWall 2 0 2 2 True adj,
               mkWall 2 2 0 2 False (- 1), mkWall 0 2 0 0 False (- 1)],
      floorHeight = 0, ceilingHeight = 3\<rparr>"


text \<open>
  The surface of the window, 1080 by 720 pixels of four bytes, black as \<^verbatim>\<open>main\<close> fills
  it before every frame.
\<close>

definition screen :: Surface where
  "screen = \<lparr>pixels = (\<lambda>i. (0, 0, 0)), pitch = 4320, height = 720\<rparr>"

section \<open>The map editor (editor/edit.cpp)\<close>

text \<open>
  The editor keeps wall end points as pixel coordinates of type \<^verbatim>\<open>int\<close> and heights as
  \<^verbatim>\<open>float\<close>. The type of the heights is left open (\<open>'f\<close>): the editor only reads,
  stores and writes them.
\<close>

definition GRID_SIZE :: int where
  "GRID_SIZE = 32"

record Point =
  xCoord :: int
  yCoord :: int

record EWall =
  p1 :: Point
  p2 :: Point
  isPortalE :: bool
  adjoiningSectorE :: int

record 'f ESector =
  wallsE :: "EWall list"
  floorHeightE :: 'f
  ceilingHeightE :: 'f

subsection \<open>deleteSector\<close>

text \<open>The body of the first loop over all walls, before the sector is erased.\<close>

definition unlinkOrShift :: "int \<Rightarrow> EWall \<Rightarrow> EWall" where
  "unlinkOrShift sectorIndex w =
     (if isPortalE w \<and> adjoiningSectorE w = sectorIndex
      then w\<lparr>isPortalE := False, adjoiningSectorE := - 1\<rparr>
      else if isPortalE w \<and> adjoiningSectorE w > sectorIndex
      then w\<lparr>adjoiningSectorE := adjoiningSectorE w - 1\<rparr>
      else w)"

text \<open>The body of the second loop over all walls, after the sector is erased.\<close>

definition shiftAgain :: "int \<Rightarrow> EWall \<Rightarrow> EWall" where
  "shiftAgain sectorIndex w =
     (if isPortalE w \<and> adjoiningSectorE w > sectorIndex
      then w\<lparr>adjoiningSectorE := adjoiningSectorE w - 1\<rparr>
      else w)"

definition eachWall :: "(EWall \<Rightarrow> EWall) \<Rightarrow> 'f ESector list \<Rightarrow> 'f ESector list" where
  "eachWall f sectors = map (\<lambda>sec. sec\<lparr>wallsE := map f (wallsE sec)\<rparr>) sectors"

definition erase :: "'a list \<Rightarrow> nat \<Rightarrow> 'a list" where
  "erase xs i = take i xs @ drop (Suc i) xs"

definition deleteSector :: "int \<Rightarrow> 'f ESector list \<Rightarrow> 'f ESector list" where
  "deleteSector sectorIndex sectors =
     (if sectorIndex < 0 \<or> sectorIndex \<ge> int (length sectors) then sectors
      else eachWall (shiftAgain sectorIndex)
             (erase (eachWall (unlinkOrShift sectorIndex) sectors) (nat sectorIndex)))"

text \<open>
  Three sectors for \<^verbatim>\<open>deleteSector\<close>; the only wall of the second is a portal into the
  third.
\<close>

definition portalTo :: "int \<Rightarrow> EWall" where
  "portalTo j = \<lparr>p1 = \<lparr>xCoord = 0, yCoord = 0\<rparr>, p2 = \<lparr>xCoord = 32, yCoord = 0\<rparr>,
                 isPortalE = True, adjoiningSectorE = j\<rparr>"

definition threeSectors :: "int ESector list" where
  "threeSectors =
     [\<lparr>wallsE = [], floorHeightE = 0, ceilingHeightE = 4\<rparr>,
      \<lparr>wallsE = [portalTo 2], floorHeightE = 1, ceilingHeightE = 4\<rparr>,
      \<lparr>wallsE = [], floorHeightE = 2, ceilingHeightE = 4\<rparr>]"

subsection \<open>Formatted input and output of the C++ streams\<close>

text \<open>
  The loaders read a file line by line with \<^verbatim>\<open>std::getline\<close> and take numbers out of a
  line with \<^verbatim>\<open>operator>>\<close>; \<^verbatim>\<open>saveMap\<close> writes numbers with \<^verbatim>\<open>operator<<\<close>. These are
  functions of the standard library. Their behaviour on \<^verbatim>\<open>int\<close>, \<^verbatim>\<open>size_t\<close> and
  \<^verbatim>\<open>bool\<close> in the default format (decimal, no \<^verbatim>\<open>boolalpha\<close>) is written out here. The
  two functions for floating-point numbers are parameters of everything that uses them:
  \<open>readFloat\<close> takes a number from the front of the text (after the white space) and
  returns it with the rest, or fails; \<open>showFloat\<close> gives the text of a number.
\<close>

definition isSpace :: "char \<Rightarrow> bool" where
  "isSpace c = (c \<in> {CHR '' '', CHR 0x09, CHR ''\<newline>'', CHR 0x0B, CHR 0x0C, CHR 0x0D})"

definition isDigit :: "char \<Rightarrow> bool" where
  "isDigit c = (c \<in> set ''0123456789'')"

definition digitVal :: "char \<Rightarrow> nat" where
  "digitVal c = of_char c - 48"






definition digitsValue :: "string \<Rightarrow> nat" where
  "digitsValue ds = foldl (\<lambda>a c. 10 * a + digitVal c) 0 ds"

text \<open>
  \<^verbatim>\<open>stream >> n\<close> for an \<^verbatim>\<open>int\<close>: white space is skipped, then an optional sign and
  at least one digit are taken. The result is the value stored in \<open>n\<close> and, when the
  extraction succeeds, the rest of the text. Without a digit the extraction fails and
  stores 0; a value out of the range of \<^verbatim>\<open>int\<close> fails and stores the nearest bound.
\<close>

definition scanInt :: "string \<Rightarrow> int \<times> string option" where
  "scanInt s =
     (let s1 = dropWhile isSpace s;
          neg = (s1 \<noteq> [] \<and> hd s1 = CHR ''-'');
          s2 = (if s1 \<noteq> [] \<and> (hd s1 = CHR ''-'' \<or> hd s1 = CHR ''+'') then tl s1 else s1);
          ds = takeWhile isDigit s2;
          k = (if neg then - int (digitsValue ds) else int (digitsValue ds))
      in if ds = [] then (0, None)
         else if k < INT_MIN then (INT_MIN, None)
         else if INT_MAX < k then (INT_MAX, None)
         else (k, Some (dropWhile isDigit s2)))"

definition readInt :: "string \<Rightarrow> (int \<times> string) option" where
  "readInt s = (case scanInt s of (k, None) \<Rightarrow> None | (k, Some rest) \<Rightarrow> Some (k, rest))"


text \<open>
  \<^verbatim>\<open>std::getline\<close> on what is left of the file: it fails at the end of the file, and
  otherwise takes the text up to the next newline, which it removes.
\<close>

definition getline :: "string \<Rightarrow> (string \<times> string) option" where
  "getline inp =
     (if inp = [] then None
      else Some (takeWhile (\<lambda>c. c \<noteq> CHR ''\<newline>'') inp,
                 drop 1 (dropWhile (\<lambda>c. c \<noteq> CHR ''\<newline>'') inp)))"

subsection \<open>saveMap\<close>





subsection \<open>loadMap\<close>


definition parseWall :: "string \<Rightarrow> EWall option" where
  "parseWall line =
     (case readInt line of
        None \<Rightarrow> None
      | Some (a, r1) \<Rightarrow>
     (case readInt r1 of
        None \<Rightarrow> None
      | Some (b, r2) \<Rightarrow>
     (case readInt r2 of
        None \<Rightarrow> None
      | Some (c, r3) \<Rightarrow>
     (case readInt r3 of
        None \<Rightarrow> None
      | Some (d, r4) \<Rightarrow>
     (case readInt r4 of
        None \<Rightarrow> None
      | Some (isPortalInt, r5) \<Rightarrow>
     (case readInt r5 of
        None \<Rightarrow> None
      | Some (adjoining, r6) \<Rightarrow>
          Some \<lparr>p1 = \<lparr>xCoord = wrap32 (a * GRID_SIZE), yCoord = wrap32 (b * GRID_SIZE)\<rparr>,
                p2 = \<lparr>xCoord = wrap32 (c * GRID_SIZE), yCoord = wrap32 (d * GRID_SIZE)\<rparr>,
                isPortalE = (isPortalInt \<noteq> 0), adjoiningSectorE = adjoining\<rparr>))))))"

text \<open>
  The loop over the wall lines of one sector: \<open>n\<close> walls are still to be read. It gives
  the walls and what is left of the file, or nothing when a line is missing or malformed
  (both are \<^verbatim>\<open>return false\<close>).
\<close>

fun readWalls :: "nat \<Rightarrow> string \<Rightarrow> EWall list \<Rightarrow> (EWall list \<times> string) option" where
  "readWalls 0 inp ws = Some (ws, inp)"
| "readWalls (Suc n) inp ws =
     (case getline inp of
        None \<Rightarrow> None
      | Some (line, rest) \<Rightarrow>
          (case parseWall line of
             None \<Rightarrow> None
           | Some w \<Rightarrow> readWalls n rest (ws @ [w])))"







section \<open>The engine's map loader (helpers.cpp)\<close>














section \<open>A model of the streams' floating-point formatting\<close>

text \<open>
  Concrete inputs need concrete functions for \<open>readFloat\<close> and \<open>showFloat\<close>. Numbers are
  modelled as reals, without the rounding to the binary format. \<open>showFloatG\<close> is the
  default output format of a stream, \<^verbatim>\<open>%g\<close> with six significant digits: the value is
  rounded to six significant decimal digits; with a decimal exponent from -4 to 5 it is
  written in fixed notation, otherwise with an exponent of at least two digits; trailing
  zeros of the fraction are dropped. \<open>readFloatDec\<close> takes a decimal number with an
  optional fraction and exponent.
\<close>


fun exponentDown :: "nat \<Rightarrow> real \<Rightarrow> int \<Rightarrow> int" where
  "exponentDown 0 v e = e"
| "exponentDown (Suc n) v e = (if 1 \<le> v then e else exponentDown n (v * 10) (e - 1))"









section \<open>Notions used to state the properties of the map files\<close>









subsection \<open>Example files and collections\<close>







section \<open>Properties of the geometry kernel and the sector locator\<close>

lemma sectorScan_range:
  "sectorScan x y ss i = - 1 \<or> (i \<le> sectorScan x y ss i \<and> sectorScan x y ss i < i + int (length ss))"
  by (induction ss arbitrary: i) (auto, force+)

lemma sectorScan_none:
  "0 \<le> i \<Longrightarrow> (sectorScan x y ss i = - 1) = (\<forall>s\<in>set ss. \<not> evenOddInside x y s)"
  by (induction ss arbitrary: i) auto

lemma sectorScan_first:
  "0 \<le> i \<Longrightarrow> k < length ss \<Longrightarrow>
   (sectorScan x y ss i = i + int k) =
   (evenOddInside x y (ss ! k) \<and> (\<forall>j<k. \<not> evenOddInside x y (ss ! j)))"
proof (induction ss arbitrary: i k)
  case Nil
  then show ?case by simp
next
  case (Cons s ss)
  show ?case
  proof (cases k)
    case 0
    have "sectorScan x y ss (i + 1) \<noteq> i"
      using sectorScan_range [of x y ss "i + 1"] Cons.prems by auto
    with 0 show ?thesis by auto
  next
    case (Suc k')
    have "(sectorScan x y ss (i + 1) = (i + 1) + int k') =
          (evenOddInside x y (ss ! k') \<and> (\<forall>j<k'. \<not> evenOddInside x y (ss ! j)))"
      using Cons.IH [of "i + 1" k'] Cons.prems Suc by simp
    then show ?thesis using Suc
      by (auto simp: less_Suc_eq_0_disj algebra_simps)
  qed
qed

lemma getSector_first:
  "k < length sectors \<Longrightarrow>
   (getSectorForPosition sectors x y = int k) =
   (evenOddInside x y (sectors ! k) \<and> (\<forall>j<k. \<not> evenOddInside x y (sectors ! j)))"
  using sectorScan_first [of 0 k sectors x y] by (simp add: getSectorForPosition_def)

lemma getSector_none:
  "(getSectorForPosition sectors x y = - 1) = (\<forall>s\<in>set sectors. \<not> evenOddInside x y s)"
  using sectorScan_none [of 0 x y sectors] by (simp add: getSectorForPosition_def)

lemma getSector_in_range:
  "getSectorForPosition sectors x y = - 1 \<or>
   (0 \<le> getSectorForPosition sectors x y \<and> getSectorForPosition sectors x y < int (length sectors))"
  using sectorScan_range [of x y sectors 0] by (simp add: getSectorForPosition_def)

lemma isMovementBlocked_no_fault:
  "\<exists>b. isMovementBlocked sectors x y = Inr b"
  using getSector_in_range [of sectors x y]
  by (auto simp: isMovementBlocked_def vecAt_def Let_def)

lemma wallBlocks_iff:
  "wallBlocks px py ws =
   (\<exists>w\<in>set ws. \<not> isPortal w \<and>
      pointToSegmentDistance px py (x1 w) (y1 w) (x2 w) (y2 w) < COLLISION_RADIUS)"
  by (induction ws) auto

lemma mkWall_sel:
  "x1 (mkWall a b c d e f) = a" "y1 (mkWall a b c d e f) = b" "x2 (mkWall a b c d e f) = c"
  "y2 (mkWall a b c d e f) = d" "isPortal (mkWall a b c d e f) = e"
  "adjoiningSector (mkWall a b c d e f) = f"
  by (simp_all add: mkWall_def)

lemma sqrt_less_radius: "(sqrt a * 10 < 1) = (a * 100 < 1)"
proof -
  have "sqrt ((1 / 10) * (1 / 10)) = \<bar>1 / 10 :: real\<bar>" by (rule real_sqrt_abs2)
  then have r: "sqrt (1 / 100) = 1 / 10" by simp
  have "(sqrt a < sqrt (1 / 100)) = (a < 1 / 100)" by (rule real_sqrt_less_iff)
  then show ?thesis unfolding r by simp
qed

lemmas collision_eval = isMovementBlocked_def getSectorForPosition_def collisionRoom_def
  crossings_def edgeCrossed_def vecAt_def pointToSegmentDistance_def COLLISION_RADIUS_def
  sqrt_less_radius mkWall_sel

lemma collisionRoom_solid_near: "isMovementBlocked [collisionRoom False] 0.05 2 = Inr True"
  by (simp add: collision_eval)

lemma collisionRoom_solid_far: "isMovementBlocked [collisionRoom False] 0.15 2 = Inr False"
  by (simp add: collision_eval)

lemma collisionRoom_portal_near: "isMovementBlocked [collisionRoom True] 0.05 2 = Inr False"
  by (simp add: collision_eval)

lemma collisionRoom_inside: "evenOddInside 0.05 2 (collisionRoom p)"
  by (simp add: collisionRoom_def crossings_def edgeCrossed_def mkWall_sel)

text \<open>
  C5. \<^verbatim>\<open>getSectorForPosition\<close> scans the sectors in collection order and returns the index
  of the first sector whose even-odd crossing test succeeds: it returns -1 exactly when the
  test fails for every sector; it returns \<open>k\<close> exactly when the test succeeds for sector
  \<open>k\<close> and fails for all sectors before it; so a point inside exactly one sector gets that
  sector's index, and a point inside exactly two sectors gets the lower index.
\<close>

theorem getSectorForPosition_first_match:
  "((getSectorForPosition sectors x y = - 1) = (\<forall>s\<in>set sectors. \<not> evenOddInside x y s))
   \<and> (\<forall>k<length sectors.
         (getSectorForPosition sectors x y = int k) =
         (evenOddInside x y (sectors ! k) \<and> (\<forall>j<k. \<not> evenOddInside x y (sectors ! j))))
   \<and> (\<forall>k<length sectors.
         evenOddInside x y (sectors ! k)
         \<and> (\<forall>j<length sectors. j \<noteq> k \<longrightarrow> \<not> evenOddInside x y (sectors ! j))
         \<longrightarrow> getSectorForPosition sectors x y = int k)
   \<and> (\<forall>i j. i < j \<and> j < length sectors
         \<and> evenOddInside x y (sectors ! i) \<and> evenOddInside x y (sectors ! j)
         \<and> (\<forall>k<length sectors. k \<noteq> i \<and> k \<noteq> j \<longrightarrow> \<not> evenOddInside x y (sectors ! k))
         \<longrightarrow> getSectorForPosition sectors x y = int i)"
proof (intro conjI allI impI)
  show "(getSectorForPosition sectors x y = - 1) = (\<forall>s\<in>set sectors. \<not> evenOddInside x y s)"
    by (rule getSector_none)
next
  fix k assume "k < length sectors"
  then show "(getSectorForPosition sectors x y = int k) =
         (evenOddInside x y (sectors ! k) \<and> (\<forall>j<k. \<not> evenOddInside x y (sectors ! j)))"
    by (rule getSector_first)
next
  fix k assume k: "k < length sectors"
    and h: "evenOddInside x y (sectors ! k)
         \<and> (\<forall>j<length sectors. j \<noteq> k \<longrightarrow> \<not> evenOddInside x y (sectors ! j))"
  then have "\<forall>j<k. \<not> evenOddInside x y (sectors ! j)" by auto
  with h show "getSectorForPosition sectors x y = int k"
    using getSector_first [OF k, of x y] by blast
next
  fix i j assume h: "i < j \<and> j < length sectors
         \<and> evenOddInside x y (sectors ! i) \<and> evenOddInside x y (sectors ! j)
         \<and> (\<forall>k<length sectors. k \<noteq> i \<and> k \<noteq> j \<longrightarrow> \<not> evenOddInside x y (sectors ! k))"
  then have i: "i < length sectors" by simp
  from h have "\<forall>k<i. \<not> evenOddInside x y (sectors ! k)" by auto
  with h show "getSectorForPosition sectors x y = int i"
    using getSector_first [OF i, of x y] by blast
qed

theorem getSectorForPosition_first_match_witness:
  "getSectorForPosition [collisionRoom False, collisionRoom True] 0.05 2 = 0
   \<and> getSectorForPosition [collisionRoom False] 0.05 2 = 0
   \<and> getSectorForPosition [collisionRoom False] 7 2 = - 1"
proof -
  let ?two = "[collisionRoom False, collisionRoom True]"
  have in0: "evenOddInside 0.05 2 (?two ! 0)" and in1: "evenOddInside 0.05 2 (?two ! 1)"
    using collisionRoom_inside by simp_all
  have others: "\<forall>k<length ?two. k \<noteq> 0 \<and> k \<noteq> 1 \<longrightarrow> \<not> evenOddInside 0.05 2 (?two ! k)"
    by (simp add: less_Suc_eq)
  have "\<forall>i j. i < j \<and> j < length ?two
         \<and> evenOddInside 0.05 2 (?two ! i) \<and> evenOddInside 0.05 2 (?two ! j)
         \<and> (\<forall>k<length ?two. k \<noteq> i \<and> k \<noteq> j \<longrightarrow> \<not> evenOddInside 0.05 2 (?two ! k))
         \<longrightarrow> getSectorForPosition ?two 0.05 2 = int i"
    using getSectorForPosition_first_match [of ?two "0.05" 2] by blast
  then have "(0::nat) < 1 \<and> 1 < length ?two
         \<and> evenOddInside 0.05 2 (?two ! 0) \<and> evenOddInside 0.05 2 (?two ! 1)
         \<and> (\<forall>k<length ?two. k \<noteq> 0 \<and> k \<noteq> 1 \<longrightarrow> \<not> evenOddInside 0.05 2 (?two ! k))
         \<longrightarrow> getSectorForPosition ?two 0.05 2 = int 0"
    by blast
  then have a: "getSectorForPosition ?two 0.05 2 = 0"
    using in0 in1 others by simp
  have b: "getSectorForPosition [collisionRoom False] 0.05 2 = 0"
    using getSectorForPosition_first_match [of "[collisionRoom False]" "0.05" 2]
      collisionRoom_inside [of False] by simp
  have out: "\<not> evenOddInside 7 2 (collisionRoom False)"
    by (simp add: collisionRoom_def crossings_def edgeCrossed_def mkWall_sel)
  have c: "getSectorForPosition [collisionRoom False] 7 2 = - 1"
    using getSectorForPosition_first_match [of "[collisionRoom False]" 7 2] out by simp
  from a b c show ?thesis by simp
qed

text \<open>
  C10. \<^verbatim>\<open>getSectorForPosition\<close> returns -1 or an index of the sector collection, so the
  access \<^verbatim>\<open>sectors[sector]\<close> in \<^verbatim>\<open>isMovementBlocked\<close>, which follows the test for -1,
  is in bounds: \<^verbatim>\<open>isMovementBlocked\<close> never faults.
\<close>

theorem getSectorForPosition_index_in_bounds:
  "(getSectorForPosition sectors x y = - 1
    \<or> (0 \<le> getSectorForPosition sectors x y
        \<and> getSectorForPosition sectors x y < int (length sectors)))
   \<and> (\<exists>b. isMovementBlocked sectors x y = Inr b)
   \<and> (getSectorForPosition sectors x y \<noteq> - 1 \<longrightarrow>
        vecAt sectors (getSectorForPosition sectors x y)
          = Inr (sectors ! nat (getSectorForPosition sectors x y)))"
  using getSector_in_range [of sectors x y] isMovementBlocked_no_fault [of sectors x y]
  by (auto simp: vecAt_def)

theorem getSectorForPosition_index_in_bounds_witness:
  "getSectorForPosition [collisionRoom False] 0.05 2 \<noteq> - 1
   \<and> vecAt [collisionRoom False] (getSectorForPosition [collisionRoom False] 0.05 2)
       = Inr (collisionRoom False)"
proof -
  have "getSectorForPosition [collisionRoom False] 0.05 2 = 0"
    using getSector_first [of 0 "[collisionRoom False]" "0.05" 2] collisionRoom_inside [of False]
    by simp
  then show ?thesis
    using getSectorForPosition_index_in_bounds [of "[collisionRoom False]" "0.05" 2] by simp
qed

text \<open>
  C2. \<^verbatim>\<open>isMovementBlocked\<close> answers true for a position outside every sector. For a
  position whose containing sector (the first one in collection order) is \<open>k\<close>, it answers
  true exactly when some non-portal wall of sector \<open>k\<close> is nearer than the collision
  radius 0.1; portal walls are never looked at. With the solid wall from (0,0) to (0,5),
  position (0.05, 2) is blocked and (0.15, 2) is not; with that wall a portal, (0.05, 2)
  is not blocked.
\<close>

theorem isMovementBlocked_spec:
  "((\<forall>s\<in>set sectors. \<not> evenOddInside px py s) \<longrightarrow> isMovementBlocked sectors px py = Inr True)
   \<and> (\<forall>k<length sectors.
         evenOddInside px py (sectors ! k) \<and> (\<forall>j<k. \<not> evenOddInside px py (sectors ! j)) \<longrightarrow>
         isMovementBlocked sectors px py =
           Inr (\<exists>w\<in>set (walls (sectors ! k)). \<not> isPortal w \<and>
                  pointToSegmentDistance px py (x1 w) (y1 w) (x2 w) (y2 w) < COLLISION_RADIUS))
   \<and> (\<forall>k<length sectors.
         evenOddInside px py (sectors ! k) \<and> (\<forall>j<k. \<not> evenOddInside px py (sectors ! j))
         \<and> (\<forall>w\<in>set (walls (sectors ! k)). isPortal w) \<longrightarrow>
         isMovementBlocked sectors px py = Inr False)
   \<and> COLLISION_RADIUS = 0.1
   \<and> isMovementBlocked [collisionRoom False] 0.05 2 = Inr True
   \<and> isMovementBlocked [collisionRoom False] 0.15 2 = Inr False
   \<and> isMovementBlocked [collisionRoom True] 0.05 2 = Inr False"
proof -
  have outside: "isMovementBlocked sectors px py = Inr True"
    if "\<forall>s\<in>set sectors. \<not> evenOddInside px py s"
    using that getSector_none [of sectors px py] by (simp add: isMovementBlocked_def)
  have inside: "isMovementBlocked sectors px py =
           Inr (\<exists>w\<in>set (walls (sectors ! k)). \<not> isPortal w \<and>
                  pointToSegmentDistance px py (x1 w) (y1 w) (x2 w) (y2 w) < COLLISION_RADIUS)"
    if k: "k < length sectors"
      and "evenOddInside px py (sectors ! k) \<and> (\<forall>j<k. \<not> evenOddInside px py (sectors ! j))"
    for k
  proof -
    have "getSectorForPosition sectors px py = int k"
      using getSector_first [OF k, of px py] that(2) by blast
    then show ?thesis using k
      by (simp add: isMovementBlocked_def vecAt_def wallBlocks_iff)
  qed
  have portals: "isMovementBlocked sectors px py = Inr False"
    if "k < length sectors"
      and "evenOddInside px py (sectors ! k) \<and> (\<forall>j<k. \<not> evenOddInside px py (sectors ! j))
         \<and> (\<forall>w\<in>set (walls (sectors ! k)). isPortal w)"
    for k
    using inside [of k] that by simp
  show ?thesis
    using outside inside portals collisionRoom_solid_near collisionRoom_solid_far
      collisionRoom_portal_near
    by (simp add: COLLISION_RADIUS_def)
qed

theorem isMovementBlocked_spec_witness:
  "isMovementBlocked [collisionRoom False] 7 2 = Inr True
   \<and> isMovementBlocked [collisionRoom False] 0.05 2 =
       Inr (\<exists>w\<in>set (walls (collisionRoom False)). \<not> isPortal w \<and>
              pointToSegmentDistance 0.05 2 (x1 w) (y1 w) (x2 w) (y2 w) < COLLISION_RADIUS)"
proof -
  have out: "\<forall>s\<in>set [collisionRoom False]. \<not> evenOddInside 7 2 s"
    by (simp add: collisionRoom_def crossings_def edgeCrossed_def mkWall_sel)
  have a: "isMovementBlocked [collisionRoom False] 7 2 = Inr True"
    using isMovementBlocked_spec [of "[collisionRoom False]" 7 2] out by blast
  have b: "isMovementBlocked [collisionRoom False] 0.05 2 =
       Inr (\<exists>w\<in>set (walls (collisionRoom False)). \<not> isPortal w \<and>
              pointToSegmentDistance 0.05 2 (x1 w) (y1 w) (x2 w) (y2 w) < COLLISION_RADIUS)"
    using isMovementBlocked_spec [of "[collisionRoom False]" "0.05" 2]
      collisionRoom_inside [of False] by simp
  from a b show ?thesis by simp
qed

section \<open>Properties of the ray/segment intersection\<close>

lemma intersect_positive:
  "intersectRayWithSegment rX rY dX dY ax ay bx by = Some d \<Longrightarrow> 0 < d"
  by (auto simp: intersectRayWithSegment_def Let_def split: if_splits)

lemma intersect_params:
  "(intersectRayWithSegment rX rY dX dY ax ay bx by = Some d) =
   (0.000001 \<le> \<bar>rayDenom dX dY ax ay bx by\<bar>
    \<and> 0 < rayParam rX rY dX dY ax ay bx by
    \<and> 0 \<le> segParam rX rY dX dY ax ay bx by \<and> segParam rX rY dX dY ax ay bx by \<le> 1
    \<and> d = rayParam rX rY dX dY ax ay bx by)"
  by (auto simp: intersectRayWithSegment_def Let_def)

lemma intersect_geometric:
  "(intersectRayWithSegment rX rY dX dY ax ay bx by = Some d) =
   (0.000001 \<le> \<bar>rayDenom dX dY ax ay bx by\<bar> \<and> 0 < d \<and>
    (\<exists>u. 0 \<le> u \<and> u \<le> 1 \<and> rX + d * dX = ax + u * (bx - ax)
                          \<and> rY + d * dY = ay + u * (by - ay)))"
  (is "?L = ?R")
proof (cases "\<bar>rayDenom dX dY ax ay bx by\<bar> < 0.000001")
  case True
  then show ?thesis by (simp add: intersectRayWithSegment_def)
next
  case False
  define D where "D = rayDenom dX dY ax ay bx by"
  have D0: "D \<noteq> 0" using False D_def by auto
  have Dexp: "D = dX * (by - ay) - dY * (bx - ax)" by (simp add: D_def rayDenom_def)
  define t where "t = rayParam rX rY dX dY ax ay bx by"
  define u where "u = segParam rX rY dX dY ax ay bx by"
  have tD: "t * D = (ax - rX) * (by - ay) - (ay - rY) * (bx - ax)"
    using D0 by (simp add: t_def rayParam_def D_def [symmetric])
  have uD: "u * D = (ax - rX) * dY - (ay - rY) * dX"
    using D0 by (simp add: u_def segParam_def D_def [symmetric])
  have L: "?L = (0 < t \<and> 0 \<le> u \<and> u \<le> 1 \<and> d = t)"
    using False by (auto simp: intersectRayWithSegment_def Let_def t_def u_def)
  have sol1: "(rX + t * dX) * D = (ax + u * (bx - ax)) * D"
    using tD uD Dexp by algebra
  have sol2: "(rY + t * dY) * D = (ay + u * (by - ay)) * D"
    using tD uD Dexp by algebra
  have sol: "rX + t * dX = ax + u * (bx - ax)" "rY + t * dY = ay + u * (by - ay)"
    using sol1 sol2 D0 by simp_all
  have uniq: "d' = t \<and> u' = u"
    if e1: "rX + d' * dX = ax + u' * (bx - ax)" and e2: "rY + d' * dY = ay + u' * (by - ay)"
    for d' u'
  proof -
    have "d' * D = t * D" using e1 e2 tD Dexp by algebra
    moreover have "u' * D = u * D" using e1 e2 uD Dexp by algebra
    ultimately show ?thesis using D0 by simp
  qed
  show ?thesis
  proof
    assume ?L
    with L sol False show ?R by (auto simp: D_def)
  next
    assume R: ?R
    then obtain u' where u': "0 \<le> u'" "u' \<le> 1" "rX + d * dX = ax + u' * (bx - ax)"
      "rY + d * dY = ay + u' * (by - ay)" by blast
    from uniq [OF u'(3) u'(4)] u' R L show ?L by auto
  qed
qed

text \<open>Moving the origin forward along the ray by \<open>c\<close> shortens every hit distance by \<open>c\<close>.\<close>

lemma intersect_shift:
  assumes "intersectRayWithSegment (rX + dX * c) (rY + dY * c) dX dY ax ay bx by = Some d"
    and "0 \<le> c"
  shows "intersectRayWithSegment rX rY dX dY ax ay bx by = Some (c + d)"
proof -
  define D where "D = rayDenom dX dY ax ay bx by"
  have nz: "\<not> \<bar>D\<bar> < 0.000001" using assms(1)
    by (auto simp: intersectRayWithSegment_def Let_def D_def split: if_splits)
  then have D0: "D \<noteq> 0" by auto
  have Dexp: "D = dX * (by - ay) - dY * (bx - ax)" by (simp add: D_def rayDenom_def)
  have t: "rayParam rX rY dX dY ax ay bx by =
           c + rayParam (rX + dX * c) (rY + dY * c) dX dY ax ay bx by"
    using D0 unfolding rayParam_def D_def [symmetric] Dexp
    by (simp add: field_simps)
  have u: "segParam rX rY dX dY ax ay bx by =
           segParam (rX + dX * c) (rY + dY * c) dX dY ax ay bx by"
    using D0 unfolding segParam_def D_def [symmetric] Dexp
    by (simp add: field_simps)
  from assms nz show ?thesis
    by (auto simp: intersectRayWithSegment_def Let_def D_def [symmetric] t u split: if_splits)
qed

section \<open>Properties of the scan over all walls\<close>

lemma testWall_firstNearest:
  assumes "firstNearest rX rY dX dY V best"
    and "\<forall>(sj, wj, w') \<in> V. before (sj, wj) (sn, wn)"
  shows "firstNearest rX rY dX dY (insert (sn, wn, w) V) (testWall rX rY dX dY sn wn w best)"
proof (cases "hitOn rX rY dX dY w")
  case None
  then have "testWall rX rY dX dY sn wn w best = best"
    by (simp add: testWall_def hitOn_def)
  with assms(1) None show ?thesis
    by (auto simp: firstNearest_def split: option.splits)
next
  case (Some d)
  show ?thesis
  proof (cases best)
    case None
    with Some assms show ?thesis
      by (auto simp: firstNearest_def testWall_def hitOn_def closer_def before_def)
  next
    case best: (Some b)
    obtain c si wi where b: "b = (c, si, wi)" by (cases b)
    show ?thesis
    proof (cases "d < c")
      case True
      then have t: "testWall rX rY dX dY sn wn w best = Some (d, sn, wn)"
        using Some best b by (simp add: testWall_def hitOn_def closer_def)
      show ?thesis unfolding t using assms Some best b True
        by (fastforce simp: firstNearest_def before_def)
    next
      case False
      then have t: "testWall rX rY dX dY sn wn w best = best"
        using Some best b by (simp add: testWall_def hitOn_def closer_def)
      have "\<not> before (sn, wn) (si, wi)"
        using assms best b by (fastforce simp: firstNearest_def before_def)
      then show ?thesis unfolding t using assms(1) Some best b False
        by (auto simp: firstNearest_def)
    qed
  qed
qed

lemma wallsOf_before:
  "(sj, wj, w) \<in> set (wallsOf si wi ws) \<Longrightarrow> sj = si \<and> wi \<le> wj"
  by (induction ws arbitrary: wi) (auto, force)

lemma scanWalls_firstNearest:
  "firstNearest rX rY dX dY V best \<Longrightarrow> \<forall>(sj, wj, w') \<in> V. before (sj, wj) (si, wi) \<Longrightarrow>
   firstNearest rX rY dX dY (V \<union> set (wallsOf si wi ws)) (scanWalls rX rY dX dY si ws wi best)"
proof (induction ws arbitrary: V wi best)
  case Nil
  then show ?case by simp
next
  case (Cons w ws)
  have a: "firstNearest rX rY dX dY (insert (si, wi, w) V) (testWall rX rY dX dY si wi w best)"
    using Cons.prems by (rule testWall_firstNearest)
  have b: "\<forall>(sj, wj, w') \<in> insert (si, wi, w) V. before (sj, wj) (si, wi + 1)"
    using Cons.prems(2) by (auto simp: before_def)
  from Cons.IH [OF a b] show ?case by simp
qed

lemma scanSectors_firstNearest:
  "firstNearest rX rY dX dY V best \<Longrightarrow> \<forall>(sj, wj, w') \<in> V. sj < si \<Longrightarrow>
   firstNearest rX rY dX dY (V \<union> set (allWalls si ss)) (scanSectors rX rY dX dY ss si best)"
proof (induction ss arbitrary: V si best)
  case Nil
  then show ?case by simp
next
  case (Cons s ss)
  have p: "\<forall>(sj, wj, w') \<in> V. before (sj, wj) (si, 0)"
    using Cons.prems(2) by (auto simp: before_def)
  have a: "firstNearest rX rY dX dY (V \<union> set (wallsOf si 0 (walls s)))
             (scanWalls rX rY dX dY si (walls s) 0 best)"
    using Cons.prems(1) p by (rule scanWalls_firstNearest)
  have b: "\<forall>(sj, wj, w') \<in> V \<union> set (wallsOf si 0 (walls s)). sj < si + 1"
    using Cons.prems(2) by (auto dest: wallsOf_before)
  from Cons.IH [OF a b] show ?case by (simp add: Un_assoc)
qed

lemma nearestHit_firstNearest:
  "firstNearest rX rY dX dY (set (allWalls 0 sectors)) (nearestHit sectors rX rY dX dY)"
proof -
  have "firstNearest rX rY dX dY {} None" by (simp add: firstNearest_def)
  from scanSectors_firstNearest [OF this, of 0 sectors] show ?thesis
    by (simp add: nearestHit_def)
qed

lemma wallsOf_mem:
  "((sj, wj, w) \<in> set (wallsOf si wi ws)) =
   (sj = si \<and> wi \<le> wj \<and> wj < wi + length ws \<and> w = ws ! (wj - wi))"
proof (induction ws arbitrary: wi)
  case Nil
  then show ?case by simp
next
  case (Cons a ws)
  show ?case
  proof (cases "wj = wi")
    case True
    then show ?thesis using Cons.IH [of "wi + 1"] by auto
  next
    case False
    then have "(wi \<le> wj) = (wi + 1 \<le> wj)" by auto
    moreover have "wi + 1 \<le> wj \<Longrightarrow> (a # ws) ! (wj - wi) = ws ! (wj - (wi + 1))"
      by (simp add: nth_Cons')
    ultimately show ?thesis using False Cons.IH [of "wi + 1"] by auto
  qed
qed

lemma allWalls_mem:
  "((sj, wj, w) \<in> set (allWalls si ss)) =
   (si \<le> sj \<and> sj < si + int (length ss) \<and> wj < length (walls (ss ! nat (sj - si)))
     \<and> w = walls (ss ! nat (sj - si)) ! wj)"
proof (induction ss arbitrary: si)
  case Nil
  then show ?case by simp
next
  case (Cons s ss)
  show ?case
  proof (cases "sj = si")
    case True
    then show ?thesis using Cons.IH [of "si + 1"] by (auto simp: wallsOf_mem)
  next
    case False
    have "(s # ss) ! nat (sj - si) = ss ! nat (sj - (si + 1))" if "si + 1 \<le> sj"
    proof -
      have "nat (sj - si) = Suc (nat (sj - (si + 1)))" using that by simp
      then show ?thesis by simp
    qed
    then show ?thesis using False Cons.IH [of "si + 1"] by (auto simp: wallsOf_mem)
  qed
qed

lemma nearestHit_Some:
  assumes "nearestHit sectors rX rY dX dY = Some (d, si, wi)"
  shows "0 \<le> si" and "si < int (length sectors)" and "wi < length (walls (sectors ! nat si))"
    and "hitOn rX rY dX dY (walls (sectors ! nat si) ! wi) = Some d"
    and "0 < d"
proof -
  from nearestHit_firstNearest [of rX rY dX dY sectors] assms
  obtain w where w: "(si, wi, w) \<in> set (allWalls 0 sectors)" "hitOn rX rY dX dY w = Some d"
    by (auto simp: firstNearest_def)
  from w(1) show "0 \<le> si" "si < int (length sectors)" "wi < length (walls (sectors ! nat si))"
    by (simp_all add: allWalls_mem)
  from w show h: "hitOn rX rY dX dY (walls (sectors ! nat si) ! wi) = Some d"
    by (simp add: allWalls_mem)
  from h show "0 < d" unfolding hitOn_def by (rule intersect_positive)
qed

lemma nearestHit_least:
  assumes "nearestHit sectors rX rY dX dY = Some (d, si, wi)"
    and "sj < length sectors" and "wj < length (walls (sectors ! sj))"
    and "hitOn rX rY dX dY (walls (sectors ! sj) ! wj) = Some d'"
  shows "d \<le> d' \<and> (before (int sj, wj) (si, wi) \<longrightarrow> d < d')"
proof -
  have m: "(int sj, wj, walls (sectors ! sj) ! wj) \<in> set (allWalls 0 sectors)"
    using assms(2,3) by (simp add: allWalls_mem)
  from nearestHit_firstNearest [of rX rY dX dY sectors] assms(1)
  have "\<forall>(sj, wj, w) \<in> set (allWalls 0 sectors). \<forall>d'. hitOn rX rY dX dY w = Some d' \<longrightarrow>
               d \<le> d' \<and> (before (sj, wj) (si, wi) \<longrightarrow> d < d')"
    by (simp add: firstNearest_def)
  with m assms(4) show ?thesis by blast
qed

lemma nearestHit_None:
  assumes "nearestHit sectors rX rY dX dY = None"
    and "sj < length sectors" and "wj < length (walls (sectors ! sj))"
  shows "hitOn rX rY dX dY (walls (sectors ! sj) ! wj) = None"
proof -
  have m: "(int sj, wj, walls (sectors ! sj) ! wj) \<in> set (allWalls 0 sectors)"
    using assms(2,3) by (simp add: allWalls_mem)
  from nearestHit_firstNearest [of rX rY dX dY sectors] assms(1)
  have "\<forall>(sj, wj, w) \<in> set (allWalls 0 sectors). hitOn rX rY dX dY w = None"
    by (simp add: firstNearest_def)
  with m show ?thesis by blast
qed

lemma nearestHit_accesses:
  assumes "nearestHit sectors rX rY dX dY = Some (d, si, wi)"
  shows "vecAt sectors si = Inr (sectors ! nat si)"
    and "vecAt (walls (sectors ! nat si)) (int wi) = Inr (walls (sectors ! nat si) ! wi)"
  using nearestHit_Some(1-3) [OF assms] by (simp_all add: vecAt_def)

text \<open>
  C4 (as amended). \<^verbatim>\<open>intersectRayWithSegment\<close> reports a hit exactly when the
  cross-product denominator has magnitude at least 1e-6 and the ray parameter satisfies
  \<open>t > 0\<close> and the segment parameter \<open>0 \<le> u \<le> 1\<close>, both ends included; whenever the
  magnitude is below 1e-6 it reports no hit. The distance it returns is the \<open>t\<close> at which
  the ray point equals a point of the segment.
\<close>

theorem intersectRayWithSegment_hit_iff:
  "((intersectRayWithSegment rX rY dX dY ax ay bx by \<noteq> None) =
      (0.000001 \<le> \<bar>rayDenom dX dY ax ay bx by\<bar>
       \<and> 0 < rayParam rX rY dX dY ax ay bx by
       \<and> 0 \<le> segParam rX rY dX dY ax ay bx by \<and> segParam rX rY dX dY ax ay bx by \<le> 1))
   \<and> (\<bar>rayDenom dX dY ax ay bx by\<bar> < 0.000001 \<longrightarrow>
        intersectRayWithSegment rX rY dX dY ax ay bx by = None)
   \<and> (\<forall>d. (intersectRayWithSegment rX rY dX dY ax ay bx by = Some d) =
        (0.000001 \<le> \<bar>rayDenom dX dY ax ay bx by\<bar> \<and> 0 < d \<and>
         (\<exists>u. 0 \<le> u \<and> u \<le> 1 \<and> rX + d * dX = ax + u * (bx - ax)
                               \<and> rY + d * dY = ay + u * (by - ay))))"
proof (intro conjI allI impI)
  show "(intersectRayWithSegment rX rY dX dY ax ay bx by \<noteq> None) =
      (0.000001 \<le> \<bar>rayDenom dX dY ax ay bx by\<bar>
       \<and> 0 < rayParam rX rY dX dY ax ay bx by
       \<and> 0 \<le> segParam rX rY dX dY ax ay bx by \<and> segParam rX rY dX dY ax ay bx by \<le> 1)"
    using intersect_params by auto
next
  assume "\<bar>rayDenom dX dY ax ay bx by\<bar> < 0.000001"
  then show "intersectRayWithSegment rX rY dX dY ax ay bx by = None"
    by (simp add: intersectRayWithSegment_def)
next
  fix d
  show "(intersectRayWithSegment rX rY dX dY ax ay bx by = Some d) =
        (0.000001 \<le> \<bar>rayDenom dX dY ax ay bx by\<bar> \<and> 0 < d \<and>
         (\<exists>u. 0 \<le> u \<and> u \<le> 1 \<and> rX + d * dX = ax + u * (bx - ax)
                               \<and> rY + d * dY = ay + u * (by - ay)))"
    by (rule intersect_geometric)
qed

theorem intersectRayWithSegment_hit_iff_witness:
  "intersectRayWithSegment 0 0 1 0 2 (- 1) 2 1 = Some 2
   \<and> intersectRayWithSegment 0 0 1 0 2 0 2 1 = Some 2
   \<and> intersectRayWithSegment 0 0 1 0 2 (- 1) 2 0 = Some 2
   \<and> intersectRayWithSegment 0 0 1 0 0 1 5 1 = None"
proof -
  have a: "intersectRayWithSegment 0 0 1 0 2 (- 1) 2 1 = Some 2"
  proof -
    have "\<exists>u::real. 0 \<le> u \<and> u \<le> 1 \<and> 0 + 2 * 1 = 2 + u * (2 - 2) \<and> 0 + 2 * 0 = - 1 + u * (1 - (- 1))"
      by (rule exI [of _ "1 / 2"]) simp
    then show ?thesis
      using intersectRayWithSegment_hit_iff [of 0 0 1 0 2 "- 1" 2 1]
      by (simp add: rayDenom_def)
  qed
  have b: "intersectRayWithSegment 0 0 1 0 2 0 2 1 = Some 2"
  proof -
    have "\<exists>u::real. 0 \<le> u \<and> u \<le> 1 \<and> 0 + 2 * 1 = 2 + u * (2 - 2) \<and> 0 + 2 * 0 = 0 + u * (1 - 0)"
      by (rule exI [of _ 0]) simp
    then show ?thesis
      using intersectRayWithSegment_hit_iff [of 0 0 1 0 2 0 2 1]
      by (simp add: rayDenom_def)
  qed
  have c: "intersectRayWithSegment 0 0 1 0 2 (- 1) 2 0 = Some 2"
  proof -
    have "\<exists>u::real. 0 \<le> u \<and> u \<le> 1 \<and> 0 + 2 * 1 = 2 + u * (2 - 2) \<and> 0 + 2 * 0 = - 1 + u * (0 - (- 1))"
      by (rule exI [of _ 1]) simp
    then show ?thesis
      using intersectRayWithSegment_hit_iff [of 0 0 1 0 2 "- 1" 2 0]
      by (simp add: rayDenom_def)
  qed
  have d: "intersectRayWithSegment 0 0 1 0 0 1 5 1 = None"
    using intersectRayWithSegment_hit_iff [of 0 0 1 0 0 1 5 1]
    by (simp add: rayDenom_def)
  from a b c d show ?thesis by simp
qed

text \<open>
  The ray from the origin along the x axis crosses the middle of a segment of length
  4e-7 that stands perpendicular to it at distance 1: \<open>t = 1\<close> and \<open>u = 1/2\<close>, and yet
  no hit is reported, because the denominator is 4e-7.
\<close>

theorem intersectRayWithSegment_short_segment_counterexample:
  "intersectRayWithSegment 0 0 1 0 1 (- 0.0000002) 1 0.0000002 = None
   \<and> rayParam 0 0 1 0 1 (- 0.0000002) 1 0.0000002 = 1
   \<and> segParam 0 0 1 0 1 (- 0.0000002) 1 0.0000002 = 1 / 2
   \<and> \<not> ((intersectRayWithSegment 0 0 1 0 1 (- 0.0000002) 1 0.0000002 \<noteq> None) =
          (0 < rayParam 0 0 1 0 1 (- 0.0000002) 1 0.0000002
           \<and> 0 \<le> segParam 0 0 1 0 1 (- 0.0000002) 1 0.0000002
           \<and> segParam 0 0 1 0 1 (- 0.0000002) 1 0.0000002 \<le> 1))"
  by (simp add: intersectRayWithSegment_def rayDenom_def rayParam_def segParam_def)

section \<open>Properties of the portal loop\<close>

lemma portalLoop_finished:
  "\<not> depth < m \<Longrightarrow> portalLoop m sectors x ph dX dY depth rX rY tot = Inr []"
  by (subst portalLoop.simps) simp

lemma portalLoop_none:
  "depth < m \<Longrightarrow> nearestHit sectors rX rY dX dY = None \<Longrightarrow>
   portalLoop m sectors x ph dX dY depth rX rY tot = Inr []"
  by (subst portalLoop.simps) simp

lemma portalLoop_stop:
  assumes "depth < m" and hit: "nearestHit sectors rX rY dX dY = Some (d, si, wi)"
    and "\<not> isPortal (walls (sectors ! nat si) ! wi)
         \<or> adjoiningSector (walls (sectors ! nat si) ! wi) < 0
         \<or> adjoiningSector (walls (sectors ! nat si) ! wi) \<ge> int (length sectors)"
  shows "portalLoop m sectors x ph dX dY depth rX rY tot =
         Inr [drawHit x ph (sectors ! nat si) (walls (sectors ! nat si) ! wi) (tot + d)]"
  using assms nearestHit_accesses [OF hit]
  by (subst portalLoop.simps) (auto simp: Let_def)

lemma portalLoop_continue:
  assumes "depth < m" and hit: "nearestHit sectors rX rY dX dY = Some (d, si, wi)"
    and "isPortal (walls (sectors ! nat si) ! wi)"
    and "0 \<le> adjoiningSector (walls (sectors ! nat si) ! wi)"
    and "adjoiningSector (walls (sectors ! nat si) ! wi) < int (length sectors)"
    and "portalLoop m sectors x ph dX dY (depth + 1) (rX + dX * (d + 0.01))
            (rY + dY * (d + 0.01)) (tot + d) = Inr rest"
  shows "portalLoop m sectors x ph dX dY depth rX rY tot =
         Inr (drawHit x ph (sectors ! nat si) (walls (sectors ! nat si) ! wi) (tot + d) # rest)"
  using assms nearestHit_accesses [OF hit]
  by (subst portalLoop.simps) (auto simp: Let_def)

text \<open>No vector access of the loop fails: both dereferences are in bounds at every step.\<close>

lemma portalLoop_total:
  "\<exists>gs. portalLoop m sectors x ph dX dY depth rX rY tot = Inr gs"
proof (induction "nat (m - depth)" arbitrary: depth rX rY tot)
  case 0
  then have "\<not> depth < m" by simp
  then show ?case by (simp add: portalLoop_finished)
next
  case (Suc n)
  then have lt: "depth < m" by simp
  show ?case
  proof (cases "nearestHit sectors rX rY dX dY")
    case None
    with lt show ?thesis by (simp add: portalLoop_none)
  next
    case (Some h)
    obtain d si wi where hit: "nearestHit sectors rX rY dX dY = Some (d, si, wi)"
      using Some by (cases h) auto
    show ?thesis
    proof (cases "\<not> isPortal (walls (sectors ! nat si) ! wi)
         \<or> adjoiningSector (walls (sectors ! nat si) ! wi) < 0
         \<or> adjoiningSector (walls (sectors ! nat si) ! wi) \<ge> int (length sectors)")
      case True
      from portalLoop_stop [OF lt hit True] show ?thesis by blast
    next
      case False
      have n: "n = nat (m - (depth + 1))" using Suc.hyps(2) by simp
      from Suc.hyps(1) [OF n]
      obtain rest where r: "portalLoop m sectors x ph dX dY (depth + 1) (rX + dX * (d + 0.01))
            (rY + dY * (d + 0.01)) (tot + d) = Inr rest"
        by blast
      from False have f: "isPortal (walls (sectors ! nat si) ! wi)"
        "0 \<le> adjoiningSector (walls (sectors ! nat si) ! wi)"
        "adjoiningSector (walls (sectors ! nat si) ! wi) < int (length sectors)" by auto
      from portalLoop_continue [OF lt hit f r] show ?thesis by blast
    qed
  qed
qed

lemma portalLoop_cases:
  obtains (over) "\<not> depth < m" "portalLoop m sectors x ph dX dY depth rX rY tot = Inr []"
  | (none) "depth < m" "nearestHit sectors rX rY dX dY = None"
      "portalLoop m sectors x ph dX dY depth rX rY tot = Inr []"
  | (stop) d si wi where "depth < m" "nearestHit sectors rX rY dX dY = Some (d, si, wi)"
      "\<not> isPortal (walls (sectors ! nat si) ! wi)
         \<or> adjoiningSector (walls (sectors ! nat si) ! wi) < 0
         \<or> adjoiningSector (walls (sectors ! nat si) ! wi) \<ge> int (length sectors)"
      "portalLoop m sectors x ph dX dY depth rX rY tot =
         Inr [drawHit x ph (sectors ! nat si) (walls (sectors ! nat si) ! wi) (tot + d)]"
  | (continue) d si wi rest where "depth < m" "nearestHit sectors rX rY dX dY = Some (d, si, wi)"
      "isPortal (walls (sectors ! nat si) ! wi)"
      "0 \<le> adjoiningSector (walls (sectors ! nat si) ! wi)"
      "adjoiningSector (walls (sectors ! nat si) ! wi) < int (length sectors)"
      "portalLoop m sectors x ph dX dY (depth + 1) (rX + dX * (d + 0.01))
            (rY + dY * (d + 0.01)) (tot + d) = Inr rest"
      "portalLoop m sectors x ph dX dY depth rX rY tot =
         Inr (drawHit x ph (sectors ! nat si) (walls (sectors ! nat si) ! wi) (tot + d) # rest)"
proof (cases "depth < m")
  case False
  then show ?thesis using portalLoop_finished over by blast
next
  case True
  show ?thesis
  proof (cases "nearestHit sectors rX rY dX dY")
    case None
    then show ?thesis using True portalLoop_none none by blast
  next
    case (Some h)
    obtain d si wi where h: "nearestHit sectors rX rY dX dY = Some (d, si, wi)"
      using Some by (cases h) auto
    show ?thesis
    proof (cases "\<not> isPortal (walls (sectors ! nat si) ! wi)
         \<or> adjoiningSector (walls (sectors ! nat si) ! wi) < 0
         \<or> adjoiningSector (walls (sectors ! nat si) ! wi) \<ge> int (length sectors)")
      case True
      with \<open>depth < m\<close> h show ?thesis using portalLoop_stop stop by blast
    next
      case False
      obtain rest where r: "portalLoop m sectors x ph dX dY (depth + 1) (rX + dX * (d + 0.01))
            (rY + dY * (d + 0.01)) (tot + d) = Inr rest"
        using portalLoop_total by blast
      from False have f: "isPortal (walls (sectors ! nat si) ! wi)"
        "0 \<le> adjoiningSector (walls (sectors ! nat si) ! wi)"
        "adjoiningSector (walls (sectors ! nat si) ! wi) < int (length sectors)" by auto
      from portalLoop_continue [OF \<open>depth < m\<close> h f r] show ?thesis
        using continue [OF \<open>depth < m\<close> h f r] by blast
    qed
  qed
qed

lemma drawHit_three: "length (drawHit x ph s w t) = 3"
  by (simp add: drawHit_def Let_def)

lemma portalLoop_bound:
  "portalLoop m sectors x ph dX dY depth rX rY tot = Inr gs \<Longrightarrow>
   int (length gs) \<le> max 0 (m - depth) \<and> (\<forall>g\<in>set gs. length g = 3)"
proof (induction "nat (m - depth)" arbitrary: depth rX rY tot gs)
  case 0
  then have "\<not> depth < m" by simp
  with 0 show ?case by (simp add: portalLoop_finished)
next
  case (Suc n)
  then have lt: "depth < m" by simp
  show ?case
  proof (cases rule: portalLoop_cases [where depth = depth and m = m and sectors = sectors
      and rX = rX and rY = rY and dX = dX and dY = dY and x = x and ph = ph and tot = tot])
    case over
    with lt show ?thesis by simp
  next
    case none
    with Suc.prems show ?thesis by simp
  next
    case (stop d si wi)
    with Suc.prems lt show ?thesis by (auto simp: drawHit_three)
  next
    case (continue d si wi rest)
    have n: "n = nat (m - (depth + 1))" using Suc.hyps(2) by simp
    from Suc.hyps(1) [OF n continue(6)] continue(7) Suc.prems lt
    show ?thesis by (auto simp: drawHit_three)
  qed
qed

text \<open>Raising the bound only appends iterations: the bounded loop draws a prefix.\<close>

lemma portalLoop_prefix:
  "0 \<le> k \<Longrightarrow> portalLoop m sectors x ph dX dY depth rX rY tot = Inr gs \<Longrightarrow>
   portalLoop (m + k) sectors x ph dX dY depth rX rY tot = Inr gs' \<Longrightarrow>
   gs = take (nat (m - depth)) gs'"
proof (induction "nat (m - depth)" arbitrary: depth rX rY tot gs gs')
  case 0
  then have "\<not> depth < m" by simp
  with 0 show ?case by (simp add: portalLoop_finished)
next
  case (Suc n)
  then have lt: "depth < m" by simp
  then have lt': "depth < m + k" using Suc.prems(1) by simp
  obtain j where j: "nat (m - depth) = Suc j" using Suc.hyps(2) [symmetric] by blast
  show ?case
  proof (cases rule: portalLoop_cases [where depth = depth and m = m and sectors = sectors
      and rX = rX and rY = rY and dX = dX and dY = dY and x = x and ph = ph and tot = tot])
    case over
    with lt show ?thesis by simp
  next
    case none
    with Suc.prems portalLoop_none [OF lt' none(2)] show ?thesis by simp
  next
    case (stop d si wi)
    with Suc.prems portalLoop_stop [OF lt' stop(2,3), of x ph tot] j show ?thesis by auto
  next
    case (continue d si wi rest)
    obtain rest' where r': "portalLoop (m + k) sectors x ph dX dY (depth + 1)
            (rX + dX * (d + 0.01)) (rY + dY * (d + 0.01)) (tot + d) = Inr rest'"
      using portalLoop_total by blast
    have n: "n = nat (m - (depth + 1))" using Suc.hyps(2) by simp
    have "rest = take (nat (m - (depth + 1))) rest'"
      using Suc.hyps(1) [OF n Suc.prems(1) continue(6) r'] .
    moreover have "nat (m - depth) = Suc (nat (m - (depth + 1)))" using lt by simp
    ultimately show ?thesis
      using Suc.prems continue(7) portalLoop_continue [OF lt' continue(2-5) r'] by auto
  qed
qed

lemma castColumn_total:
  "\<exists>gs. castColumn sectors posX posY dirX dirY planeX planeY ph x = Inr gs"
  using portalLoop_total by (simp add: castColumn_def Let_def)

section \<open>Properties of drawVerticalLine and of the calls of a hit\<close>

lemma inBuffer_pixels: "inBuffer (surface\<lparr>pixels := f\<rparr>) i = inBuffer surface i"
  by (simp add: inBuffer_def)

lemma drawVerticalLine_ok:
  assumes "\<forall>r. y \<le> r \<and> r < finish \<longrightarrow> inBuffer surface (r * (pitch surface sdiv 4) + x)"
  shows "drawVerticalLine surface x y finish c =
     Inr (surface\<lparr>pixels := (\<lambda>i. if \<exists>r. y \<le> r \<and> r < finish \<and> i = r * (pitch surface sdiv 4) + x
                                   then c else pixels surface i)\<rparr>)"
  using assms
proof (induction "nat (finish - y)" arbitrary: surface y)
  case 0
  then have n: "\<not> y < finish" by simp
  then have "(\<lambda>i. if \<exists>r. y \<le> r \<and> r < finish \<and> i = r * (pitch surface sdiv 4) + x
                  then c else pixels surface i) = pixels surface"
    by (intro ext) auto
  with n show ?case by (subst drawVerticalLine.simps) simp
next
  case (Suc n)
  then have lt: "y < finish" by simp
  let ?p = "pitch surface sdiv 4"
  let ?s = "surface\<lparr>pixels := (pixels surface)(y * ?p + x := c)\<rparr>"
  have ib: "inBuffer surface (y * ?p + x)" using Suc.prems lt by simp
  have n: "n = nat (finish - (y + 1))" using Suc.hyps(2) by simp
  have pre: "\<forall>r. y + 1 \<le> r \<and> r < finish \<longrightarrow> inBuffer ?s (r * (pitch ?s sdiv 4) + x)"
    using Suc.prems by (simp add: inBuffer_pixels)
  have f: "(\<lambda>i. if \<exists>r. y + 1 \<le> r \<and> r < finish \<and> i = r * ?p + x then c
                 else ((pixels surface)(y * ?p + x := c)) i)
         = (\<lambda>i. if \<exists>r. y \<le> r \<and> r < finish \<and> i = r * ?p + x then c else pixels surface i)"
  proof
    fix i
    show "(if \<exists>r. y + 1 \<le> r \<and> r < finish \<and> i = r * ?p + x then c
                 else ((pixels surface)(y * ?p + x := c)) i)
         = (if \<exists>r. y \<le> r \<and> r < finish \<and> i = r * ?p + x then c else pixels surface i)"
    proof (cases "\<exists>r. y + 1 \<le> r \<and> r < finish \<and> i = r * ?p + x")
      case True
      then obtain r where "y + 1 \<le> r" "r < finish" "i = r * ?p + x" by blast
      then have "y \<le> r \<and> r < finish \<and> i = r * ?p + x" by simp
      then have "\<exists>r. y \<le> r \<and> r < finish \<and> i = r * ?p + x" ..
      with True show ?thesis by simp
    next
      case False
      show ?thesis
      proof (cases "i = y * ?p + x")
        case True
        with lt have "y \<le> y \<and> y < finish \<and> i = y * ?p + x" by simp
        then have "\<exists>r. y \<le> r \<and> r < finish \<and> i = r * ?p + x" ..
        with False True show ?thesis by simp
      next
        case ne: False
        have "\<not> (\<exists>r. y \<le> r \<and> r < finish \<and> i = r * ?p + x)"
        proof
          assume "\<exists>r. y \<le> r \<and> r < finish \<and> i = r * ?p + x"
          then obtain r where r: "y \<le> r" "r < finish" "i = r * ?p + x" by blast
          with ne have "r \<noteq> y" by auto
          with r have "y + 1 \<le> r" by simp
          with r False show False by blast
        qed
        then have "(if \<exists>r. y \<le> r \<and> r < finish \<and> i = r * ?p + x then c else pixels surface i)
            = pixels surface i" by (rule if_not_P)
        moreover from False
        have "(if \<exists>r. y + 1 \<le> r \<and> r < finish \<and> i = r * ?p + x then c
                 else ((pixels surface)(y * ?p + x := c)) i) = ((pixels surface)(y * ?p + x := c)) i"
          by (rule if_not_P)
        moreover have "((pixels surface)(y * ?p + x := c)) i = pixels surface i" using ne by simp
        ultimately show ?thesis by (simp only:)
      qed
    qed
  qed
  have ps: "pixels ?s = (pixels surface)(y * ?p + x := c)" by simp
  have pp: "pitch ?s = pitch surface" by simp
  have e: "(\<lambda>i. if \<exists>r. y + 1 \<le> r \<and> r < finish \<and> i = r * ?p + x then c else pixels ?s i)
         = (\<lambda>i. if \<exists>r. y \<le> r \<and> r < finish \<and> i = r * ?p + x then c else pixels surface i)"
    unfolding ps by (rule f)
  have u: "?s\<lparr>pixels := G\<rparr> = surface\<lparr>pixels := G\<rparr>" for G by simp
  have "drawVerticalLine ?s x (y + 1) finish c =
      Inr (surface\<lparr>pixels := (\<lambda>i. if \<exists>r. y \<le> r \<and> r < finish \<and> i = r * ?p + x
                                   then c else pixels surface i)\<rparr>)"
    using Suc.hyps(1) [OF n pre] unfolding pp e u .
  with lt ib show ?case
    by (subst drawVerticalLine.simps) (simp only: if_True)
qed


lemma drawVerticalLine_cases:
  assumes "\<forall>r. y \<le> r \<and> r < finish \<longrightarrow> inBuffer surface (r * (pitch surface sdiv 4) + x)"
  obtains surface' where "drawVerticalLine surface x y finish c = Inr surface'"
    and "pitch surface' = pitch surface" and "height surface' = height surface"
    and "\<And>r. y \<le> r \<Longrightarrow> r < finish \<Longrightarrow> pixels surface' (r * (pitch surface sdiv 4) + x) = c"
    and "\<And>i. (\<And>r. y \<le> r \<Longrightarrow> r < finish \<Longrightarrow> i \<noteq> r * (pitch surface sdiv 4) + x)
           \<Longrightarrow> pixels surface' i = pixels surface i"
proof -
  let ?s = "surface\<lparr>pixels := (\<lambda>i. if \<exists>r. y \<le> r \<and> r < finish \<and> i = r * (pitch surface sdiv 4) + x
                                   then c else pixels surface i)\<rparr>"
  show thesis
  proof (rule that [of ?s])
    show "drawVerticalLine surface x y finish c = Inr ?s" by (rule drawVerticalLine_ok [OF assms])
    show "pitch ?s = pitch surface" by simp
    show "height ?s = height surface" by simp
    show "pixels ?s (r * (pitch surface sdiv 4) + x) = c" if "y \<le> r" "r < finish" for r
    proof -
      from that have "y \<le> r \<and> r < finish \<and> r * (pitch surface sdiv 4) + x = r * (pitch surface sdiv 4) + x"
        by simp
      then have e: "\<exists>r'. y \<le> r' \<and> r' < finish \<and> r * (pitch surface sdiv 4) + x = r' * (pitch surface sdiv 4) + x" ..
      have "pixels ?s (r * (pitch surface sdiv 4) + x) =
          (if \<exists>r'. y \<le> r' \<and> r' < finish \<and> r * (pitch surface sdiv 4) + x = r' * (pitch surface sdiv 4) + x
           then c else pixels surface (r * (pitch surface sdiv 4) + x))" by simp
      also have "\<dots> = c" using e by (rule if_P)
      finally show ?thesis .
    qed
    show "pixels ?s i = pixels surface i"
      if "\<And>r. y \<le> r \<Longrightarrow> r < finish \<Longrightarrow> i \<noteq> r * (pitch surface sdiv 4) + x" for i
    proof -
      have e: "\<not> (\<exists>r. y \<le> r \<and> r < finish \<and> i = r * (pitch surface sdiv 4) + x)"
        using that by blast
      have "pixels ?s i =
          (if \<exists>r. y \<le> r \<and> r < finish \<and> i = r * (pitch surface sdiv 4) + x
           then c else pixels surface i)" by simp
      also have "\<dots> = pixels surface i" using e by (rule if_not_P)
      finally show ?thesis .
    qed
  qed
qed

lemma toInt_range: "INT_MIN \<le> toInt r \<and> toInt r \<le> INT_MAX"
  by (simp add: toInt_def Let_def INT_MIN_def INT_MAX_def)

lemma ceilingRow_bounds: "0 \<le> ceilingRow ph s D"
  by (simp add: ceilingRow_def)

lemma floorRow_bounds: "floorRow ph s D \<le> 719"
  by (simp add: floorRow_def)

lemma drawHit_rows:
  "max 0 (toInt (real_of_int SCREEN_HEIGHT / 2.0
        - (ceilingHeight s - ph) * real_of_int SCREEN_HEIGHT / D)) = ceilingRow ph s D"
  "min (SCREEN_HEIGHT - 1) (toInt (real_of_int SCREEN_HEIGHT / 2.0
        + (ph - floorHeight s) * real_of_int SCREEN_HEIGHT / D)) = floorRow ph s D"
  "toInt (real_of_int SCREEN_HEIGHT / D) = toInt (720 / D)"
  by (simp_all add: ceilingRow_def floorRow_def SCREEN_HEIGHT_def)

lemma drawHit_spans:
  assumes "ceilingRow ph s D \<le> floorRow ph s D"
  shows "drawHit x ph s w D =
     [\<lparr>column = x, rowStart = 0, rowEnd = ceilingRow ph s D, color = (100, 100, 255)\<rparr>,
      \<lparr>column = x, rowStart = ceilingRow ph s D, rowEnd = floorRow ph s D,
        color = (if isPortal w then 0 else 255, 105, 180)\<rparr>,
      \<lparr>column = x, rowStart = floorRow ph s D, rowEnd = 720, color = (100, 255, 100)\<rparr>]"
proof -
  from assms have n: "\<not> floorRow ph s D < ceilingRow ph s D" by simp
  show ?thesis
    unfolding drawHit_def Let_def drawHit_rows if_not_P [OF n]
    by (simp add: SCREEN_HEIGHT_def)
qed

lemma drawHit_fallback:
  assumes "floorRow ph s D < ceilingRow ph s D"
  shows "drawHit x ph s w D =
     [\<lparr>column = x, rowStart = 0, rowEnd = ceilingRow ph s D, color = (100, 100, 255)\<rparr>,
      \<lparr>column = x, rowStart = max 0 (360 - toInt (720 / D) sdiv 2),
        rowEnd = min 719 (wrap32 (max 0 (360 - toInt (720 / D) sdiv 2) + toInt (720 / D))),
        color = (if isPortal w then 0 else 255, 105, 180)\<rparr>,
      \<lparr>column = x, rowStart = floorRow ph s D, rowEnd = 720, color = (100, 255, 100)\<rparr>]"
  unfolding drawHit_def Let_def drawHit_rows if_P [OF assms]
  by (simp add: SCREEN_HEIGHT_def)

lemma pitch_positive:
  assumes "1080 \<le> (p::int) sdiv 4"
  shows "4 * (p sdiv 4) \<le> p"
proof (cases "0 \<le> p")
  case True
  then have "p sdiv 4 = p div 4" by (simp add: signed_divide_int_def sgn_if)
  then show ?thesis by simp
next
  case False
  then have "p sdiv 4 \<le> 0" by (simp add: signed_divide_int_def sgn_if)
  with assms show ?thesis by simp
qed

lemma screen_inBuffer:
  assumes "holdsScreen surface" and "0 \<le> x" and "x < SCREEN_WIDTH" and "0 \<le> r" and "r < 720"
  shows "inBuffer surface (r * (pitch surface sdiv 4) + x)"
proof -
  let ?p = "pitch surface sdiv 4"
  from assms(1) have p: "1080 \<le> ?p" and h: "720 \<le> height surface"
    by (simp_all add: holdsScreen_def SCREEN_WIDTH_def SCREEN_HEIGHT_def)
  from pitch_positive [OF p] have pp: "4 * ?p \<le> pitch surface" .
  have "r * ?p \<le> 719 * ?p" using assms(5) p by (intro mult_right_mono) simp_all
  moreover have "x < ?p" using assms(3) p by (simp add: SCREEN_WIDTH_def)
  ultimately have "4 * (r * ?p + x) + 4 \<le> 720 * (4 * ?p)" by simp
  also have "\<dots> \<le> 720 * pitch surface" using pp by simp
  also have "\<dots> \<le> height surface * pitch surface"
    using h pp p by (intro mult_right_mono) simp_all
  finally have "4 * (r * ?p + x) + 4 \<le> height surface * pitch surface" .
  moreover have "0 \<le> r * ?p + x" using assms(2,4) p by simp
  ultimately show ?thesis by (simp add: inBuffer_def)
qed

lemma inBuffer_same:
  "pitch s' = pitch s \<Longrightarrow> height s' = height s \<Longrightarrow> inBuffer s' i = inBuffer s i"
  by (simp add: inBuffer_def)

lemma row_index_inj: "1080 \<le> (p::int) \<Longrightarrow> r * p + x = r' * p + x \<Longrightarrow> r = r'"
  by simp

lemma wrap32_id: "INT_MIN \<le> k \<Longrightarrow> k \<le> INT_MAX \<Longrightarrow> wrap32 k = k"
  by (simp add: wrap32_def INT_MIN_def INT_MAX_def)

text \<open>The sum \<^verbatim>\<open>drawStart + lineHeight\<close> of the fallback band never overflows.\<close>

lemma fallback_band_no_overflow:
  "wrap32 (max 0 (360 - toInt v sdiv 2) + toInt v) = max 0 (360 - toInt v sdiv 2) + toInt v"
proof (rule wrap32_id)
  from toInt_range [of v] have r: "- 2147483648 \<le> toInt v" "toInt v \<le> 2147483647"
    by (simp_all add: INT_MIN_def INT_MAX_def)
  show "INT_MIN \<le> max 0 (360 - toInt v sdiv 2) + toInt v"
    using r by (cases "0 \<le> toInt v") (simp_all add: INT_MIN_def signed_divide_int_def sgn_if max_def)
  show "max 0 (360 - toInt v sdiv 2) + toInt v \<le> INT_MAX"
  proof (cases "0 \<le> toInt v")
    case True
    then have "toInt v sdiv 2 = toInt v div 2" by (simp add: signed_divide_int_def sgn_if)
    moreover have "toInt v div 2 \<le> 360 \<Longrightarrow> toInt v \<le> 721" by simp
    ultimately show ?thesis using r by (auto simp: INT_MAX_def max_def)
  next
    case False
    then have "toInt v sdiv 2 = - (- toInt v div 2)" by (simp add: signed_divide_int_def sgn_if)
    moreover have "- toInt v div 2 \<le> - toInt v" using False by simp
    ultimately show ?thesis using r False by (simp add: INT_MAX_def max_def)
  qed
qed

lemma paint_drawHit:
  assumes hs: "holdsScreen surface" and x: "0 \<le> x" "x < SCREEN_WIDTH"
    and n: "ceilingRow ph s D \<le> floorRow ph s D"
  shows "\<exists>surface'. paint (drawHit x ph s w D) surface = Inr surface'
      \<and> pitch surface' = pitch surface \<and> height surface' = height surface
      \<and> (\<forall>r. 0 \<le> r \<and> r < 720 \<longrightarrow>
            pixels surface' (r * (pitch surface sdiv 4) + x) =
              (if r < ceilingRow ph s D then (100, 100, 255)
               else if r < floorRow ph s D then (if isPortal w then 0 else 255, 105, 180)
               else (100, 255, 100)))
      \<and> (\<forall>i. (\<forall>r. 0 \<le> r \<and> r < 720 \<longrightarrow> i \<noteq> r * (pitch surface sdiv 4) + x)
             \<longrightarrow> pixels surface' i = pixels surface i)"
proof -
  let ?p = "pitch surface sdiv 4"
  let ?c = "ceilingRow ph s D" and ?f = "floorRow ph s D"
  let ?wc = "(if isPortal w then 0 else 255, 105, 180) :: Color"
  have c0: "0 \<le> ?c" by (rule ceilingRow_bounds)
  have f9: "?f \<le> 719" by (rule floorRow_bounds)
  have p: "1080 \<le> ?p" using hs by (simp add: holdsScreen_def SCREEN_WIDTH_def)
  have ib: "inBuffer surface (r * ?p + x)" if "0 \<le> r" "r < 720" for r
    using screen_inBuffer [OF hs x that] .
  have inj: "r = r'" if "r * ?p + x = r' * ?p + x" for r r'
    using row_index_inj [OF p that] .
  have pre1: "\<forall>r. 0 \<le> r \<and> r < ?c \<longrightarrow> inBuffer surface (r * ?p + x)"
    using ib n f9 by simp
  show ?thesis
  proof (rule drawVerticalLine_cases [OF pre1, where c = "(100, 100, 255)"])
  fix s1 assume
    d1: "drawVerticalLine surface x 0 ?c (100, 100, 255) = Inr s1"
    and p1: "pitch s1 = pitch surface" and h1: "height s1 = height surface"
    and w1: "\<And>r. 0 \<le> r \<Longrightarrow> r < ?c \<Longrightarrow> pixels s1 (r * ?p + x) = (100, 100, 255)"
    and k1: "\<And>i. (\<And>r. 0 \<le> r \<Longrightarrow> r < ?c \<Longrightarrow> i \<noteq> r * ?p + x) \<Longrightarrow> pixels s1 i = pixels surface i"
  have pre2: "\<forall>r. ?c \<le> r \<and> r < ?f \<longrightarrow> inBuffer s1 (r * (pitch s1 sdiv 4) + x)"
    using ib c0 f9 by (simp add: p1 inBuffer_same [OF p1 h1])
  show ?thesis
  proof (rule drawVerticalLine_cases [OF pre2, where c = ?wc])
  fix s2 assume
    d2: "drawVerticalLine s1 x ?c ?f ?wc = Inr s2"
    and p2: "pitch s2 = pitch s1" and h2: "height s2 = height s1"
    and w2: "\<And>r. ?c \<le> r \<Longrightarrow> r < ?f \<Longrightarrow> pixels s2 (r * (pitch s1 sdiv 4) + x) = ?wc"
    and k2: "\<And>i. (\<And>r. ?c \<le> r \<Longrightarrow> r < ?f \<Longrightarrow> i \<noteq> r * (pitch s1 sdiv 4) + x) \<Longrightarrow> pixels s2 i = pixels s1 i"
  note p2 = p2 [unfolded p1] and h2 = h2 [unfolded h1] and w2 = w2 [unfolded p1] and k2 = k2 [unfolded p1]
  have pre3: "\<forall>r. ?f \<le> r \<and> r < 720 \<longrightarrow> inBuffer s2 (r * (pitch s2 sdiv 4) + x)"
    using ib c0 n by (simp add: p2 inBuffer_same [OF p2 h2])
  show ?thesis
  proof (rule drawVerticalLine_cases [OF pre3, where c = "(100, 255, 100)"])
  fix s3 assume
    d3: "drawVerticalLine s2 x ?f 720 (100, 255, 100) = Inr s3"
    and p3: "pitch s3 = pitch s2" and h3: "height s3 = height s2"
    and w3: "\<And>r. ?f \<le> r \<Longrightarrow> r < 720 \<Longrightarrow> pixels s3 (r * (pitch s2 sdiv 4) + x) = (100, 255, 100)"
    and k3: "\<And>i. (\<And>r. ?f \<le> r \<Longrightarrow> r < 720 \<Longrightarrow> i \<noteq> r * (pitch s2 sdiv 4) + x) \<Longrightarrow> pixels s3 i = pixels s2 i"
  note p3 = p3 [unfolded p2] and h3 = h3 [unfolded h2] and w3 = w3 [unfolded p2] and k3 = k3 [unfolded p2]
  have run: "paint (drawHit x ph s w D) surface = Inr s3"
    unfolding drawHit_spans [OF n] by (simp add: d1 d2 d3)
  have col: "pixels s3 (r * ?p + x) =
      (if r < ?c then (100, 100, 255) else if r < ?f then ?wc else (100, 255, 100))"
    if r: "0 \<le> r" "r < 720" for r
  proof -
    consider "r < ?c" | "?c \<le> r" "r < ?f" | "?f \<le> r" by linarith
    then show ?thesis
    proof cases
      case 1
      have a: "r * ?p + x \<noteq> r' * ?p + x" if "?f \<le> r'" "r' < 720" for r'
        using 1 n that inj [of r r'] by auto
      have b: "r * ?p + x \<noteq> r' * ?p + x" if "?c \<le> r'" "r' < ?f" for r'
        using 1 that inj [of r r'] by auto
      have "pixels s3 (r * ?p + x) = pixels s2 (r * ?p + x)" by (rule k3) (rule a)
      also have "\<dots> = pixels s1 (r * ?p + x)" by (rule k2) (rule b)
      also have "\<dots> = (100, 100, 255)" using r(1) 1 by (rule w1)
      finally show ?thesis using 1 by simp
    next
      case 2
      have a: "r * ?p + x \<noteq> r' * ?p + x" if "?f \<le> r'" "r' < 720" for r'
        using 2 that inj [of r r'] by auto
      have "pixels s3 (r * ?p + x) = pixels s2 (r * ?p + x)" by (rule k3) (rule a)
      also have "\<dots> = ?wc" using 2 by (rule w2)
      finally show ?thesis using 2 by simp
    next
      case 3
      with n have "\<not> r < ?c" "\<not> r < ?f" by simp_all
      moreover have "pixels s3 (r * ?p + x) = (100, 255, 100)" using 3 r(2) by (rule w3)
      ultimately show ?thesis by simp
    qed
  qed
  have rest: "pixels s3 i = pixels surface i"
    if i: "\<forall>r. 0 \<le> r \<and> r < 720 \<longrightarrow> i \<noteq> r * ?p + x" for i
  proof -
    have a: "i \<noteq> r * ?p + x" if "?f \<le> r" "r < 720" for r using i c0 n that by simp
    have b: "i \<noteq> r * ?p + x" if "?c \<le> r" "r < ?f" for r using i c0 f9 that by simp
    have c: "i \<noteq> r * ?p + x" if "0 \<le> r" "r < ?c" for r using i n f9 that by simp
    have "pixels s3 i = pixels s2 i" by (rule k3) (rule a)
    also have "\<dots> = pixels s1 i" by (rule k2) (rule b)
    also have "\<dots> = pixels surface i" by (rule k1) (rule c)
    finally show ?thesis .
  qed
  show ?thesis
  proof (intro exI [of _ s3] conjI allI impI)
    show "paint (drawHit x ph s w D) surface = Inr s3" by (rule run)
    show "pitch s3 = pitch surface" by (rule p3)
    show "height s3 = height surface" by (rule h3)
    show "pixels s3 (r * ?p + x) =
      (if r < ?c then (100, 100, 255) else if r < ?f then ?wc else (100, 255, 100))"
      if "0 \<le> r \<and> r < 720" for r using that col by simp
    show "pixels s3 i = pixels surface i"
      if "\<forall>r. 0 \<le> r \<and> r < 720 \<longrightarrow> i \<noteq> r * ?p + x" for i using that by (rule rest)
  qed
  qed
  qed
  qed
qed

lemma paint_append:
  "paint (a @ b) surface = (case paint a surface of Inl e \<Rightarrow> Inl e | Inr surface' \<Rightarrow> paint b surface')"
  by (induction a arbitrary: surface) (simp_all split: sum.splits)

lemma holdsScreen_same:
  "pitch s' = pitch s \<Longrightarrow> height s' = height s \<Longrightarrow> holdsScreen s' = holdsScreen s"
  by (simp add: holdsScreen_def)

lemma portalLoop_step:
  assumes lt: "depth < m" and hit: "nearestHit sectors rX rY dX dY = Some (d, si, wi)"
  shows "\<exists>rest. portalLoop m sectors x ph dX dY depth rX rY tot =
            Inr (drawHit x ph (sectors ! nat si) (walls (sectors ! nat si) ! wi) (tot + d) # rest)
          \<and> (if isPortal (walls (sectors ! nat si) ! wi)
                 \<and> 0 \<le> adjoiningSector (walls (sectors ! nat si) ! wi)
                 \<and> adjoiningSector (walls (sectors ! nat si) ! wi) < int (length sectors)
              then portalLoop m sectors x ph dX dY (depth + 1) (rX + dX * (d + 0.01))
                     (rY + dY * (d + 0.01)) (tot + d) = Inr rest
              else rest = [])"
proof (cases "isPortal (walls (sectors ! nat si) ! wi)
                 \<and> 0 \<le> adjoiningSector (walls (sectors ! nat si) ! wi)
                 \<and> adjoiningSector (walls (sectors ! nat si) ! wi) < int (length sectors)")
  case True
  obtain rest where r: "portalLoop m sectors x ph dX dY (depth + 1) (rX + dX * (d + 0.01))
                     (rY + dY * (d + 0.01)) (tot + d) = Inr rest"
    using portalLoop_total by blast
  from True have c: "isPortal (walls (sectors ! nat si) ! wi)"
    "0 \<le> adjoiningSector (walls (sectors ! nat si) ! wi)"
    "adjoiningSector (walls (sectors ! nat si) ! wi) < int (length sectors)" by simp_all
  from portalLoop_continue [OF lt hit c r]
  have e: "portalLoop m sectors x ph dX dY depth rX rY tot =
      Inr (drawHit x ph (sectors ! nat si) (walls (sectors ! nat si) ! wi) (tot + d) # rest)" .
  show ?thesis
    apply (rule exI [of _ rest])
    unfolding if_P [OF True]
    using e r apply (intro conjI)
     apply assumption+
    done
next
  case False
  then have "\<not> isPortal (walls (sectors ! nat si) ! wi)
         \<or> adjoiningSector (walls (sectors ! nat si) ! wi) < 0
         \<or> adjoiningSector (walls (sectors ! nat si) ! wi) \<ge> int (length sectors)" by auto
  from portalLoop_stop [OF lt hit this]
  have e: "portalLoop m sectors x ph dX dY depth rX rY tot =
      Inr [drawHit x ph (sectors ! nat si) (walls (sectors ! nat si) ! wi) (tot + d)]" .
  show ?thesis
    apply (rule exI [of _ "[]"])
    unfolding if_not_P [OF False]
    using e apply (intro conjI)
     apply assumption
    apply (rule refl)
    done
qed

lemma paint_two_hits:
  assumes hs: "holdsScreen surface" and x: "0 \<le> x" "x < SCREEN_WIDTH"
    and n1: "ceilingRow ph s1 D1 \<le> floorRow ph s1 D1"
    and n2: "ceilingRow ph s2 D2 \<le> floorRow ph s2 D2"
  shows "\<exists>surface'. paint (drawHit x ph s1 w1 D1 @ drawHit x ph s2 w2 D2) surface = Inr surface'
      \<and> (\<forall>r. 0 \<le> r \<and> r < 720 \<longrightarrow>
            pixels surface' (r * (pitch surface sdiv 4) + x) =
              (if r < ceilingRow ph s2 D2 then (100, 100, 255)
               else if r < floorRow ph s2 D2 then (if isPortal w2 then 0 else 255, 105, 180)
               else (100, 255, 100)))
      \<and> (\<forall>i. (\<forall>r. 0 \<le> r \<and> r < 720 \<longrightarrow> i \<noteq> r * (pitch surface sdiv 4) + x)
             \<longrightarrow> pixels surface' i = pixels surface i)"
proof -
  from paint_drawHit [OF hs x n1, of w1] obtain sa where
    a: "paint (drawHit x ph s1 w1 D1) surface = Inr sa
      \<and> pitch sa = pitch surface \<and> height sa = height surface
      \<and> (\<forall>r. 0 \<le> r \<and> r < 720 \<longrightarrow>
            pixels sa (r * (pitch surface sdiv 4) + x) =
              (if r < ceilingRow ph s1 D1 then (100, 100, 255)
               else if r < floorRow ph s1 D1 then (if isPortal w1 then 0 else 255, 105, 180)
               else (100, 255, 100)))
      \<and> (\<forall>i. (\<forall>r. 0 \<le> r \<and> r < 720 \<longrightarrow> i \<noteq> r * (pitch surface sdiv 4) + x)
             \<longrightarrow> pixels sa i = pixels surface i)"
    by (rule exE)
  from a have pa: "paint (drawHit x ph s1 w1 D1) surface = Inr sa" by (rule conjunct1)
  from a have pp: "pitch sa = pitch surface" by (rule conjunct1 [OF conjunct2])
  from a have ph: "height sa = height surface" by (rule conjunct1 [OF conjunct2 [OF conjunct2]])
  from a have ka: "\<forall>i. (\<forall>r. 0 \<le> r \<and> r < 720 \<longrightarrow> i \<noteq> r * (pitch surface sdiv 4) + x)
             \<longrightarrow> pixels sa i = pixels surface i"
    by (rule conjunct2 [OF conjunct2 [OF conjunct2 [OF conjunct2]]])
  have hsa: "holdsScreen sa" using hs holdsScreen_same [OF pp ph] by simp
  from paint_drawHit [OF hsa x n2, of w2] obtain sb where
    b: "paint (drawHit x ph s2 w2 D2) sa = Inr sb
      \<and> pitch sb = pitch sa \<and> height sb = height sa
      \<and> (\<forall>r. 0 \<le> r \<and> r < 720 \<longrightarrow>
            pixels sb (r * (pitch sa sdiv 4) + x) =
              (if r < ceilingRow ph s2 D2 then (100, 100, 255)
               else if r < floorRow ph s2 D2 then (if isPortal w2 then 0 else 255, 105, 180)
               else (100, 255, 100)))
      \<and> (\<forall>i. (\<forall>r. 0 \<le> r \<and> r < 720 \<longrightarrow> i \<noteq> r * (pitch sa sdiv 4) + x)
             \<longrightarrow> pixels sb i = pixels sa i)"
    by (rule exE)
  from b have pb: "paint (drawHit x ph s2 w2 D2) sa = Inr sb" by (rule conjunct1)
  from b have wb: "\<forall>r. 0 \<le> r \<and> r < 720 \<longrightarrow>
            pixels sb (r * (pitch surface sdiv 4) + x) =
              (if r < ceilingRow ph s2 D2 then (100, 100, 255)
               else if r < floorRow ph s2 D2 then (if isPortal w2 then 0 else 255, 105, 180)
               else (100, 255, 100))"
    unfolding pp by (rule conjunct1 [OF conjunct2 [OF conjunct2 [OF conjunct2]]])
  from b have kb: "\<forall>i. (\<forall>r. 0 \<le> r \<and> r < 720 \<longrightarrow> i \<noteq> r * (pitch surface sdiv 4) + x)
             \<longrightarrow> pixels sb i = pixels sa i"
    unfolding pp by (rule conjunct2 [OF conjunct2 [OF conjunct2 [OF conjunct2]]])
  have run: "paint (drawHit x ph s1 w1 D1 @ drawHit x ph s2 w2 D2) surface = Inr sb"
    by (simp add: paint_append pa pb)
  have keep: "\<forall>i. (\<forall>r. 0 \<le> r \<and> r < 720 \<longrightarrow> i \<noteq> r * (pitch surface sdiv 4) + x)
             \<longrightarrow> pixels sb i = pixels surface i"
  proof (intro allI impI)
    fix i assume i: "\<forall>r. 0 \<le> r \<and> r < 720 \<longrightarrow> i \<noteq> r * (pitch surface sdiv 4) + x"
    from kb [THEN spec, THEN mp, OF i] ka [THEN spec, THEN mp, OF i] show "pixels sb i = pixels surface i"
      by simp
  qed
  show ?thesis
    apply (rule exI [of _ sb])
    apply (intro conjI)
      apply (rule run)
     apply (rule wb)
    apply (rule keep)
    done
qed

section \<open>The raycaster on concrete maps\<close>

lemmas scan_eval = nearestHit_def testWall_def closer_def intersectRayWithSegment_def
  rayDenom_def rayParam_def segParam_def mkWall_sel

lemma roomA_walls:
  "walls roomA = [mkWall 0 0 2 0 False (- 1), mkWall 2 0 2 2 True 1,
                  mkWall 2 2 0 2 False (- 1), mkWall 0 2 0 0 False (- 1)]"
  by (simp add: roomA_def)

lemma roomB_walls:
  "walls roomB = [mkWall 2 0 4 0 False (- 1), mkWall 4 0 4 2 False (- 1),
                  mkWall 4 2 2 2 False (- 1), mkWall 2 2 2 0 True 0]"
  by (simp add: roomB_def)

lemma twoRooms_hit1: "nearestHit [roomA, roomB] 1 1 1 0 = Some (1, 0, 1)"
  by (simp add: scan_eval roomA_walls roomB_walls)

lemma twoRooms_hit2: "nearestHit [roomA, roomB] (201 / 100) 1 1 0 = Some (199 / 100, 1, 1)"
  by (simp add: scan_eval roomA_walls roomB_walls)

text \<open>
  C1. At every depth step the raycaster tests the ray against every wall of every sector
  and keeps the hit with the smallest distance, which is strictly positive; among hits
  at equal distance the one visited first in sector-then-wall order is kept. The calls of
  the column are those of this hit, drawn with the distance accumulated so far, followed
  by the calls of the loop that starts one step deeper at the pushed origin when the hit
  is a portal with a valid adjoining sector, and by nothing otherwise. The three calls of
  a hit are the sky from row 0 to the ceiling edge, the wall in its colour between the
  two edges (or, when the floor edge is above the ceiling edge, a band of the height of
  the wall around the middle of the screen) and the floor from the floor edge to the last
  row, the edges being those of the hit sector at the accumulated distance. When the
  nearest hit is a portal with a valid adjoining sector and the nearest hit from the
  pushed origin is a solid wall, the column draws the portal and then that far wall with
  the sum of the two hit distances, which is the far wall's distance from the first
  origin less the push of 0.01; executed on a surface that holds the screen, with both
  hits seen with the ceiling edge not below the floor edge, the calls leave in the
  column the far wall in the colour of a solid wall between its two edges at the combined
  distance, the sky above and the floor below, and change no other pixel.
\<close>

theorem nearest_hit_and_portal_traversal:
  "(nearestHit sectors rX rY dX dY = None \<longrightarrow>
      (\<forall>sj<length sectors. \<forall>wj<length (walls (sectors ! sj)).
          hitOn rX rY dX dY (walls (sectors ! sj) ! wj) = None))
   \<and> (\<forall>d si wi. nearestHit sectors rX rY dX dY = Some (d, si, wi) \<longrightarrow>
        0 \<le> si \<and> si < int (length sectors) \<and> wi < length (walls (sectors ! nat si))
        \<and> hitOn rX rY dX dY (walls (sectors ! nat si) ! wi) = Some d \<and> 0 < d
        \<and> (\<forall>sj<length sectors. \<forall>wj<length (walls (sectors ! sj)). \<forall>d'.
              hitOn rX rY dX dY (walls (sectors ! sj) ! wj) = Some d' \<longrightarrow>
              d \<le> d' \<and> (before (int sj, wj) (si, wi) \<longrightarrow> d < d')))
   \<and> (\<not> depth < m \<longrightarrow> portalLoop m sectors x ph dX dY depth rX rY tot = Inr [])
   \<and> (depth < m \<longrightarrow>
        (case nearestHit sectors rX rY dX dY of
           None \<Rightarrow> portalLoop m sectors x ph dX dY depth rX rY tot = Inr []
         | Some (d, si, wi) \<Rightarrow>
             (\<exists>rest. portalLoop m sectors x ph dX dY depth rX rY tot =
                  Inr (drawHit x ph (sectors ! nat si) (walls (sectors ! nat si) ! wi) (tot + d)
                       # rest)
                \<and> (if isPortal (walls (sectors ! nat si) ! wi)
                       \<and> 0 \<le> adjoiningSector (walls (sectors ! nat si) ! wi)
                       \<and> adjoiningSector (walls (sectors ! nat si) ! wi) < int (length sectors)
                    then portalLoop m sectors x ph dX dY (depth + 1) (rX + dX * (d + 0.01))
                           (rY + dY * (d + 0.01)) (tot + d) = Inr rest
                    else rest = []))))
   \<and> (\<forall>s w D.
        (ceilingRow ph s D \<le> floorRow ph s D \<longrightarrow>
           drawHit x ph s w D =
             [\<lparr>column = x, rowStart = 0, rowEnd = ceilingRow ph s D, color = (100, 100, 255)\<rparr>,
              \<lparr>column = x, rowStart = ceilingRow ph s D, rowEnd = floorRow ph s D,
                color = (if isPortal w then 0 else 255, 105, 180)\<rparr>,
              \<lparr>column = x, rowStart = floorRow ph s D, rowEnd = 720, color = (100, 255, 100)\<rparr>])
        \<and> (floorRow ph s D < ceilingRow ph s D \<longrightarrow>
           drawHit x ph s w D =
             [\<lparr>column = x, rowStart = 0, rowEnd = ceilingRow ph s D, color = (100, 100, 255)\<rparr>,
              \<lparr>column = x, rowStart = max 0 (360 - toInt (720 / D) sdiv 2),
                rowEnd = min 719 (wrap32 (max 0 (360 - toInt (720 / D) sdiv 2) + toInt (720 / D))),
                color = (if isPortal w then 0 else 255, 105, 180)\<rparr>,
              \<lparr>column = x, rowStart = floorRow ph s D, rowEnd = 720, color = (100, 255, 100)\<rparr>]))
   \<and> (\<forall>d1 s1 w1 d2 s2 w2.
        depth + 1 < m
        \<and> nearestHit sectors rX rY dX dY = Some (d1, s1, w1)
        \<and> isPortal (walls (sectors ! nat s1) ! w1)
        \<and> 0 \<le> adjoiningSector (walls (sectors ! nat s1) ! w1)
        \<and> adjoiningSector (walls (sectors ! nat s1) ! w1) < int (length sectors)
        \<and> nearestHit sectors (rX + dX * (d1 + 0.01)) (rY + dY * (d1 + 0.01)) dX dY
             = Some (d2, s2, w2)
        \<and> \<not> isPortal (walls (sectors ! nat s2) ! w2)
        \<longrightarrow>
        portalLoop m sectors x ph dX dY depth rX rY tot =
          Inr [drawHit x ph (sectors ! nat s1) (walls (sectors ! nat s1) ! w1) (tot + d1),
               drawHit x ph (sectors ! nat s2) (walls (sectors ! nat s2) ! w2) (tot + d1 + d2)]
        \<and> hitOn rX rY dX dY (walls (sectors ! nat s2) ! w2) = Some (d1 + d2 + 0.01)
        \<and> (\<forall>surface.
              holdsScreen surface \<and> 0 \<le> x \<and> x < SCREEN_WIDTH
              \<and> ceilingRow ph (sectors ! nat s1) (tot + d1) \<le> floorRow ph (sectors ! nat s1) (tot + d1)
              \<and> ceilingRow ph (sectors ! nat s2) (tot + d1 + d2)
                    \<le> floorRow ph (sectors ! nat s2) (tot + d1 + d2)
              \<longrightarrow>
              (\<exists>surface'.
                  paint (drawHit x ph (sectors ! nat s1) (walls (sectors ! nat s1) ! w1) (tot + d1)
                         @ drawHit x ph (sectors ! nat s2) (walls (sectors ! nat s2) ! w2)
                             (tot + d1 + d2)) surface = Inr surface'
                  \<and> (\<forall>r. 0 \<le> r \<and> r < 720 \<longrightarrow>
                        pixels surface' (r * (pitch surface sdiv 4) + x) =
                          (if r < ceilingRow ph (sectors ! nat s2) (tot + d1 + d2)
                           then (100, 100, 255)
                           else if r < floorRow ph (sectors ! nat s2) (tot + d1 + d2)
                           then (255, 105, 180)
                           else (100, 255, 100)))
                  \<and> (\<forall>i. (\<forall>r. 0 \<le> r \<and> r < 720 \<longrightarrow> i \<noteq> r * (pitch surface sdiv 4) + x)
                         \<longrightarrow> pixels surface' i = pixels surface i))))"
proof -
  have A: "nearestHit sectors rX rY dX dY = None \<longrightarrow>
      (\<forall>sj<length sectors. \<forall>wj<length (walls (sectors ! sj)).
          hitOn rX rY dX dY (walls (sectors ! sj) ! wj) = None)"
  proof (intro impI allI)
    fix sj wj
    assume "nearestHit sectors rX rY dX dY = None" "sj < length sectors"
      "wj < length (walls (sectors ! sj))"
    then show "hitOn rX rY dX dY (walls (sectors ! sj) ! wj) = None"
      by (rule nearestHit_None)
  qed
  have B: "\<forall>d si wi. nearestHit sectors rX rY dX dY = Some (d, si, wi) \<longrightarrow>
        0 \<le> si \<and> si < int (length sectors) \<and> wi < length (walls (sectors ! nat si))
        \<and> hitOn rX rY dX dY (walls (sectors ! nat si) ! wi) = Some d \<and> 0 < d
        \<and> (\<forall>sj<length sectors. \<forall>wj<length (walls (sectors ! sj)). \<forall>d'.
              hitOn rX rY dX dY (walls (sectors ! sj) ! wj) = Some d' \<longrightarrow>
              d \<le> d' \<and> (before (int sj, wj) (si, wi) \<longrightarrow> d < d'))"
  proof (intro conjI allI impI)
    fix d si wi
    assume h: "nearestHit sectors rX rY dX dY = Some (d, si, wi)"
    from nearestHit_Some [OF h]
    show "0 \<le> si" "si < int (length sectors)" "wi < length (walls (sectors ! nat si))"
      "hitOn rX rY dX dY (walls (sectors ! nat si) ! wi) = Some d" "0 < d"
      by simp_all
    fix sj wj d'
    assume a: "sj < length sectors" "wj < length (walls (sectors ! sj))"
      "hitOn rX rY dX dY (walls (sectors ! sj) ! wj) = Some d'"
    from nearestHit_least [OF h a] show "d \<le> d'" by simp
    assume "before (int sj, wj) (si, wi)"
    with nearestHit_least [OF h a] show "d < d'" by simp
  qed
  have C1: "\<not> depth < m \<longrightarrow> portalLoop m sectors x ph dX dY depth rX rY tot = Inr []"
    by (simp add: portalLoop_finished)
  have C2: "depth < m \<longrightarrow>
        (case nearestHit sectors rX rY dX dY of
           None \<Rightarrow> portalLoop m sectors x ph dX dY depth rX rY tot = Inr []
         | Some (d, si, wi) \<Rightarrow>
             (\<exists>rest. portalLoop m sectors x ph dX dY depth rX rY tot =
                  Inr (drawHit x ph (sectors ! nat si) (walls (sectors ! nat si) ! wi) (tot + d)
                       # rest)
                \<and> (if isPortal (walls (sectors ! nat si) ! wi)
                       \<and> 0 \<le> adjoiningSector (walls (sectors ! nat si) ! wi)
                       \<and> adjoiningSector (walls (sectors ! nat si) ! wi) < int (length sectors)
                    then portalLoop m sectors x ph dX dY (depth + 1) (rX + dX * (d + 0.01))
                           (rY + dY * (d + 0.01)) (tot + d) = Inr rest
                    else rest = [])))"
  proof
    assume lt: "depth < m"
    show "case nearestHit sectors rX rY dX dY of
           None \<Rightarrow> portalLoop m sectors x ph dX dY depth rX rY tot = Inr []
         | Some (d, si, wi) \<Rightarrow>
             (\<exists>rest. portalLoop m sectors x ph dX dY depth rX rY tot =
                  Inr (drawHit x ph (sectors ! nat si) (walls (sectors ! nat si) ! wi) (tot + d)
                       # rest)
                \<and> (if isPortal (walls (sectors ! nat si) ! wi)
                       \<and> 0 \<le> adjoiningSector (walls (sectors ! nat si) ! wi)
                       \<and> adjoiningSector (walls (sectors ! nat si) ! wi) < int (length sectors)
                    then portalLoop m sectors x ph dX dY (depth + 1) (rX + dX * (d + 0.01))
                           (rY + dY * (d + 0.01)) (tot + d) = Inr rest
                    else rest = []))"
    proof (cases "nearestHit sectors rX rY dX dY")
      case None
      with portalLoop_none [OF lt None] show ?thesis by (simp only: option.case)
    next
      case (Some hit)
      obtain d si wi where hit: "hit = (d, si, wi)" by (cases hit)
      from Some hit have h: "nearestHit sectors rX rY dX dY = Some (d, si, wi)" by simp
      from portalLoop_step [OF lt h] show ?thesis
        unfolding h by (simp only: option.case prod.case)
    qed
  qed
  have D: "\<forall>s w D.
        (ceilingRow ph s D \<le> floorRow ph s D \<longrightarrow>
           drawHit x ph s w D =
             [\<lparr>column = x, rowStart = 0, rowEnd = ceilingRow ph s D, color = (100, 100, 255)\<rparr>,
              \<lparr>column = x, rowStart = ceilingRow ph s D, rowEnd = floorRow ph s D,
                color = (if isPortal w then 0 else 255, 105, 180)\<rparr>,
              \<lparr>column = x, rowStart = floorRow ph s D, rowEnd = 720, color = (100, 255, 100)\<rparr>])
        \<and> (floorRow ph s D < ceilingRow ph s D \<longrightarrow>
           drawHit x ph s w D =
             [\<lparr>column = x, rowStart = 0, rowEnd = ceilingRow ph s D, color = (100, 100, 255)\<rparr>,
              \<lparr>column = x, rowStart = max 0 (360 - toInt (720 / D) sdiv 2),
                rowEnd = min 719 (wrap32 (max 0 (360 - toInt (720 / D) sdiv 2) + toInt (720 / D))),
                color = (if isPortal w then 0 else 255, 105, 180)\<rparr>,
              \<lparr>column = x, rowStart = floorRow ph s D, rowEnd = 720, color = (100, 255, 100)\<rparr>])"
    by (intro allI conjI impI) (erule drawHit_spans, erule drawHit_fallback)
  have E: "\<forall>d1 s1 w1 d2 s2 w2.
        depth + 1 < m
        \<and> nearestHit sectors rX rY dX dY = Some (d1, s1, w1)
        \<and> isPortal (walls (sectors ! nat s1) ! w1)
        \<and> 0 \<le> adjoiningSector (walls (sectors ! nat s1) ! w1)
        \<and> adjoiningSector (walls (sectors ! nat s1) ! w1) < int (length sectors)
        \<and> nearestHit sectors (rX + dX * (d1 + 0.01)) (rY + dY * (d1 + 0.01)) dX dY
             = Some (d2, s2, w2)
        \<and> \<not> isPortal (walls (sectors ! nat s2) ! w2)
        \<longrightarrow>
        portalLoop m sectors x ph dX dY depth rX rY tot =
          Inr [drawHit x ph (sectors ! nat s1) (walls (sectors ! nat s1) ! w1) (tot + d1),
               drawHit x ph (sectors ! nat s2) (walls (sectors ! nat s2) ! w2) (tot + d1 + d2)]
        \<and> hitOn rX rY dX dY (walls (sectors ! nat s2) ! w2) = Some (d1 + d2 + 0.01)
        \<and> (\<forall>surface.
              holdsScreen surface \<and> 0 \<le> x \<and> x < SCREEN_WIDTH
              \<and> ceilingRow ph (sectors ! nat s1) (tot + d1) \<le> floorRow ph (sectors ! nat s1) (tot + d1)
              \<and> ceilingRow ph (sectors ! nat s2) (tot + d1 + d2)
                    \<le> floorRow ph (sectors ! nat s2) (tot + d1 + d2)
              \<longrightarrow>
              (\<exists>surface'.
                  paint (drawHit x ph (sectors ! nat s1) (walls (sectors ! nat s1) ! w1) (tot + d1)
                         @ drawHit x ph (sectors ! nat s2) (walls (sectors ! nat s2) ! w2)
                             (tot + d1 + d2)) surface = Inr surface'
                  \<and> (\<forall>r. 0 \<le> r \<and> r < 720 \<longrightarrow>
                        pixels surface' (r * (pitch surface sdiv 4) + x) =
                          (if r < ceilingRow ph (sectors ! nat s2) (tot + d1 + d2)
                           then (100, 100, 255)
                           else if r < floorRow ph (sectors ! nat s2) (tot + d1 + d2)
                           then (255, 105, 180)
                           else (100, 255, 100)))
                  \<and> (\<forall>i. (\<forall>r. 0 \<le> r \<and> r < 720 \<longrightarrow> i \<noteq> r * (pitch surface sdiv 4) + x)
                         \<longrightarrow> pixels surface' i = pixels surface i)))"
  proof (intro allI impI)
    fix d1 s1 w1 d2 s2 w2
    assume a: "depth + 1 < m
        \<and> nearestHit sectors rX rY dX dY = Some (d1, s1, w1)
        \<and> isPortal (walls (sectors ! nat s1) ! w1)
        \<and> 0 \<le> adjoiningSector (walls (sectors ! nat s1) ! w1)
        \<and> adjoiningSector (walls (sectors ! nat s1) ! w1) < int (length sectors)
        \<and> nearestHit sectors (rX + dX * (d1 + 0.01)) (rY + dY * (d1 + 0.01)) dX dY
             = Some (d2, s2, w2)
        \<and> \<not> isPortal (walls (sectors ! nat s2) ! w2)"
    then have lt1: "depth < m" and lt2: "depth + 1 < m"
      and h1: "nearestHit sectors rX rY dX dY = Some (d1, s1, w1)"
      and h2: "nearestHit sectors (rX + dX * (d1 + 0.01)) (rY + dY * (d1 + 0.01)) dX dY
               = Some (d2, s2, w2)"
      and solid: "\<not> isPortal (walls (sectors ! nat s2) ! w2)"
      by simp_all
    let ?g1 = "drawHit x ph (sectors ! nat s1) (walls (sectors ! nat s1) ! w1) (tot + d1)"
    let ?g2 = "drawHit x ph (sectors ! nat s2) (walls (sectors ! nat s2) ! w2) (tot + d1 + d2)"
    have second: "portalLoop m sectors x ph dX dY (depth + 1) (rX + dX * (d1 + 0.01))
        (rY + dY * (d1 + 0.01)) (tot + d1) = Inr [?g2]"
      using portalLoop_stop [OF lt2 h2] a by simp
    from portalLoop_continue [OF lt1 h1 _ _ _ second] a
    have calls: "portalLoop m sectors x ph dX dY depth rX rY tot = Inr [?g1, ?g2]"
      by simp
    have "0 < d1" using nearestHit_Some(5) [OF h1] .
    then have c: "0 \<le> d1 + 0.01" by simp
    from nearestHit_Some(4) [OF h2]
    have "intersectRayWithSegment (rX + dX * (d1 + 0.01)) (rY + dY * (d1 + 0.01)) dX dY
            (x1 (walls (sectors ! nat s2) ! w2)) (y1 (walls (sectors ! nat s2) ! w2))
            (x2 (walls (sectors ! nat s2) ! w2)) (y2 (walls (sectors ! nat s2) ! w2)) = Some d2"
      by (simp add: hitOn_def)
    from intersect_shift [OF this c]
    have far: "hitOn rX rY dX dY (walls (sectors ! nat s2) ! w2) = Some (d1 + d2 + 0.01)"
      by (simp add: hitOn_def add.commute add.left_commute)
    have pic: "\<forall>surface.
              holdsScreen surface \<and> 0 \<le> x \<and> x < SCREEN_WIDTH
              \<and> ceilingRow ph (sectors ! nat s1) (tot + d1) \<le> floorRow ph (sectors ! nat s1) (tot + d1)
              \<and> ceilingRow ph (sectors ! nat s2) (tot + d1 + d2)
                    \<le> floorRow ph (sectors ! nat s2) (tot + d1 + d2)
              \<longrightarrow>
              (\<exists>surface'.
                  paint (?g1 @ ?g2) surface = Inr surface'
                  \<and> (\<forall>r. 0 \<le> r \<and> r < 720 \<longrightarrow>
                        pixels surface' (r * (pitch surface sdiv 4) + x) =
                          (if r < ceilingRow ph (sectors ! nat s2) (tot + d1 + d2)
                           then (100, 100, 255)
                           else if r < floorRow ph (sectors ! nat s2) (tot + d1 + d2)
                           then (255, 105, 180)
                           else (100, 255, 100)))
                  \<and> (\<forall>i. (\<forall>r. 0 \<le> r \<and> r < 720 \<longrightarrow> i \<noteq> r * (pitch surface sdiv 4) + x)
                         \<longrightarrow> pixels surface' i = pixels surface i))"
    proof (intro allI impI)
      fix surface
      assume b: "holdsScreen surface \<and> 0 \<le> x \<and> x < SCREEN_WIDTH
              \<and> ceilingRow ph (sectors ! nat s1) (tot + d1) \<le> floorRow ph (sectors ! nat s1) (tot + d1)
              \<and> ceilingRow ph (sectors ! nat s2) (tot + d1 + d2)
                    \<le> floorRow ph (sectors ! nat s2) (tot + d1 + d2)"
      then have hs: "holdsScreen surface" and x: "0 \<le> x" "x < SCREEN_WIDTH"
        and n1: "ceilingRow ph (sectors ! nat s1) (tot + d1) \<le> floorRow ph (sectors ! nat s1) (tot + d1)"
        and n2: "ceilingRow ph (sectors ! nat s2) (tot + d1 + d2)
                    \<le> floorRow ph (sectors ! nat s2) (tot + d1 + d2)"
        by simp_all
      have wc: "(if isPortal (walls (sectors ! nat s2) ! w2) then 0 else 255, 105, 180)
          = ((255, 105, 180) :: Color)" using solid by simp
      from paint_two_hits [OF hs x n1 n2, of "walls (sectors ! nat s1) ! w1"
          "walls (sectors ! nat s2) ! w2"]
      show "\<exists>surface'.
                  paint (?g1 @ ?g2) surface = Inr surface'
                  \<and> (\<forall>r. 0 \<le> r \<and> r < 720 \<longrightarrow>
                        pixels surface' (r * (pitch surface sdiv 4) + x) =
                          (if r < ceilingRow ph (sectors ! nat s2) (tot + d1 + d2)
                           then (100, 100, 255)
                           else if r < floorRow ph (sectors ! nat s2) (tot + d1 + d2)
                           then (255, 105, 180)
                           else (100, 255, 100)))
                  \<and> (\<forall>i. (\<forall>r. 0 \<le> r \<and> r < 720 \<longrightarrow> i \<noteq> r * (pitch surface sdiv 4) + x)
                         \<longrightarrow> pixels surface' i = pixels surface i)"
        unfolding wc .
    qed
    from calls far pic
    show "portalLoop m sectors x ph dX dY depth rX rY tot = Inr [?g1, ?g2]
        \<and> hitOn rX rY dX dY (walls (sectors ! nat s2) ! w2) = Some (d1 + d2 + 0.01)
        \<and> (\<forall>surface.
              holdsScreen surface \<and> 0 \<le> x \<and> x < SCREEN_WIDTH
              \<and> ceilingRow ph (sectors ! nat s1) (tot + d1) \<le> floorRow ph (sectors ! nat s1) (tot + d1)
              \<and> ceilingRow ph (sectors ! nat s2) (tot + d1 + d2)
                    \<le> floorRow ph (sectors ! nat s2) (tot + d1 + d2)
              \<longrightarrow>
              (\<exists>surface'.
                  paint (?g1 @ ?g2) surface = Inr surface'
                  \<and> (\<forall>r. 0 \<le> r \<and> r < 720 \<longrightarrow>
                        pixels surface' (r * (pitch surface sdiv 4) + x) =
                          (if r < ceilingRow ph (sectors ! nat s2) (tot + d1 + d2)
                           then (100, 100, 255)
                           else if r < floorRow ph (sectors ! nat s2) (tot + d1 + d2)
                           then (255, 105, 180)
                           else (100, 255, 100)))
                  \<and> (\<forall>i. (\<forall>r. 0 \<le> r \<and> r < 720 \<longrightarrow> i \<noteq> r * (pitch surface sdiv 4) + x)
                         \<longrightarrow> pixels surface' i = pixels surface i)))"
      by (intro conjI)
  qed
  from A B C1 C2 D E show ?thesis by (intro conjI)
qed

lemmas row_eval = ceilingRow_def floorRow_def toInt_def Let_def INT_MIN_def INT_MAX_def

lemma twoRooms_rows:
  "ceilingRow 1 roomA 1 = 0" "floorRow 1 roomA 1 = 719"
  "ceilingRow 1 roomB (299 / 100) = 0" "floorRow 1 roomB (299 / 100) = 600"
  by (simp_all add: row_eval roomA_def roomB_def)

lemma drawHit_portal:
  "drawHit 540 1 roomA (mkWall 2 0 2 2 True 1) 1 =
     [\<lparr>column = 540, rowStart = 0, rowEnd = 0, color = (100, 100, 255)\<rparr>,
      \<lparr>column = 540, rowStart = 0, rowEnd = 719, color = (0, 105, 180)\<rparr>,
      \<lparr>column = 540, rowStart = 719, rowEnd = 720, color = (100, 255, 100)\<rparr>]"
  by (subst drawHit_spans) (simp_all add: twoRooms_rows mkWall_sel)

lemma drawHit_far:
  "drawHit 540 1 roomB (mkWall 4 0 4 2 False (- 1)) (299 / 100) =
     [\<lparr>column = 540, rowStart = 0, rowEnd = 0, color = (100, 100, 255)\<rparr>,
      \<lparr>column = 540, rowStart = 0, rowEnd = 600, color = (255, 105, 180)\<rparr>,
      \<lparr>column = 540, rowStart = 600, rowEnd = 720, color = (100, 255, 100)\<rparr>]"
  by (subst drawHit_spans) (simp_all add: twoRooms_rows mkWall_sel)

lemma screen_holds: "holdsScreen screen"
  by (simp add: holdsScreen_def screen_def SCREEN_WIDTH_def SCREEN_HEIGHT_def signed_divide_int_def)

lemma screen_pitch: "pitch screen sdiv 4 = 1080"
  by (simp add: screen_def signed_divide_int_def)

theorem nearest_hit_and_portal_traversal_witness:
  "nearestHit [roomA, roomB] 1 1 1 0 = Some (1, 0, 1)
   \<and> hitOn 1 1 1 0 (mkWall 2 2 2 0 True 0) = Some 1
   \<and> castColumn [roomA, roomB] 1 1 1 0 0 0.66 1 540 =
       Inr [[\<lparr>column = 540, rowStart = 0, rowEnd = 0, color = (100, 100, 255)\<rparr>,
             \<lparr>column = 540, rowStart = 0, rowEnd = 719, color = (0, 105, 180)\<rparr>,
             \<lparr>column = 540, rowStart = 719, rowEnd = 720, color = (100, 255, 100)\<rparr>],
            [\<lparr>column = 540, rowStart = 0, rowEnd = 0, color = (100, 100, 255)\<rparr>,
             \<lparr>column = 540, rowStart = 0, rowEnd = 600, color = (255, 105, 180)\<rparr>,
             \<lparr>column = 540, rowStart = 600, rowEnd = 720, color = (100, 255, 100)\<rparr>]]
   \<and> hitOn 1 1 1 0 (mkWall 4 0 4 2 False (- 1)) = Some 3
   \<and> (\<exists>surface'. renderColumn screen [roomA, roomB] 1 1 1 0 0 0.66 1 540 = Inr surface'
         \<and> pixels surface' (0 * 1080 + 540) = (255, 105, 180)
         \<and> pixels surface' (599 * 1080 + 540) = (255, 105, 180)
         \<and> pixels surface' (600 * 1080 + 540) = (100, 255, 100)
         \<and> pixels surface' (719 * 1080 + 540) = (100, 255, 100)
         \<and> pixels surface' (0 * 1080 + 539) = (0, 0, 0))"
proof -
  note t = nearest_hit_and_portal_traversal [where sectors = "[roomA, roomB]" and rX = 1
      and rY = 1 and dX = 1 and dY = 0 and depth = 0 and m = 10 and x = 540 and ph = 1
      and tot = 0]
  note E = t [THEN conjunct2, THEN conjunct2, THEN conjunct2, THEN conjunct2, THEN conjunct2,
      rule_format, where ?d1.0 = 1 and ?s1.0 = 0 and ?w1.0 = 1 and ?d2.0 = "199 / 100"
      and ?s2.0 = 1 and ?w2.0 = 1]
  have mirror: "hitOn 1 1 1 0 (mkWall 2 2 2 0 True 0) = Some 1"
    by (simp add: hitOn_def scan_eval)
  have org: "(1::real) + 1 * (1 + 0.01) = 201 / 100" "(1::real) + 0 * (1 + 0.01) = 1" by simp_all
  have w1: "walls ([roomA, roomB] ! nat 0) ! 1 = mkWall 2 0 2 2 True 1"
    by (simp add: roomA_walls)
  have w2: "walls ([roomA, roomB] ! nat 1) ! 1 = mkWall 4 0 4 2 False (- 1)"
    by (simp add: roomB_walls)
  have s1: "[roomA, roomB] ! nat 0 = roomA" and s2: "[roomA, roomB] ! nat 1 = roomB" by simp_all
  have scenario: "(0::int) + 1 < 10
        \<and> nearestHit [roomA, roomB] 1 1 1 0 = Some (1, 0, 1)
        \<and> isPortal (walls ([roomA, roomB] ! nat 0) ! 1)
        \<and> 0 \<le> adjoiningSector (walls ([roomA, roomB] ! nat 0) ! 1)
        \<and> adjoiningSector (walls ([roomA, roomB] ! nat 0) ! 1) < int (length [roomA, roomB])
        \<and> nearestHit [roomA, roomB] (1 + 1 * (1 + 0.01)) (1 + 0 * (1 + 0.01)) 1 0
             = Some (199 / 100, 1, 1)
        \<and> \<not> isPortal (walls ([roomA, roomB] ! nat 1) ! 1)"
    unfolding org w1 w2 by (simp add: twoRooms_hit1 twoRooms_hit2 mkWall_sel)
  have wA: "walls roomA ! 1 = mkWall 2 0 2 2 True 1" by (simp add: roomA_walls)
  have wB: "walls roomB ! 1 = mkWall 4 0 4 2 False (- 1)" by (simp add: roomB_walls)
  note r = E [OF scenario, unfolded s1 s2 wA wB]
  have d: "(0::real) + 1 = 1" "(1::real) + 199 / 100 = 299 / 100"
    "(1::real) + 199 / 100 + 0.01 = 3" "(299::real) / 100 + 0.01 = 3" by simp_all
  note r' = r [unfolded d]
  from r' have calls: "portalLoop 10 [roomA, roomB] 540 1 1 0 0 1 1 0 =
      Inr [drawHit 540 1 roomA (mkWall 2 0 2 2 True 1) 1,
           drawHit 540 1 roomB (mkWall 4 0 4 2 False (- 1)) (299 / 100)]"
    by (rule conjunct1)
  from r' have far: "hitOn 1 1 1 0 (mkWall 4 0 4 2 False (- 1)) = Some 3"
    by (rule conjunct1 [OF conjunct2])
  from r' have pic: "\<forall>surface.
       holdsScreen surface \<and> (0::int) \<le> 540 \<and> 540 < SCREEN_WIDTH
       \<and> ceilingRow 1 roomA 1 \<le> floorRow 1 roomA 1
       \<and> ceilingRow 1 roomB (299 / 100) \<le> floorRow 1 roomB (299 / 100) \<longrightarrow>
       (\<exists>surface'.
           paint (drawHit 540 1 roomA (mkWall 2 0 2 2 True 1) 1
                  @ drawHit 540 1 roomB (mkWall 4 0 4 2 False (- 1)) (299 / 100)) surface
             = Inr surface'
           \<and> (\<forall>r. 0 \<le> r \<and> r < 720 \<longrightarrow>
                 pixels surface' (r * (pitch surface sdiv 4) + 540) =
                   (if r < ceilingRow 1 roomB (299 / 100) then (100, 100, 255)
                    else if r < floorRow 1 roomB (299 / 100) then (255, 105, 180)
                    else (100, 255, 100)))
           \<and> (\<forall>i. (\<forall>r. 0 \<le> r \<and> r < 720 \<longrightarrow> i \<noteq> r * (pitch surface sdiv 4) + 540)
                  \<longrightarrow> pixels surface' i = pixels surface i))"
    by (rule conjunct2 [OF conjunct2])
  have pre: "holdsScreen screen \<and> (0::int) \<le> 540 \<and> 540 < SCREEN_WIDTH
       \<and> ceilingRow 1 roomA 1 \<le> floorRow 1 roomA 1
       \<and> ceilingRow 1 roomB (299 / 100) \<le> floorRow 1 roomB (299 / 100)"
    by (simp add: screen_holds SCREEN_WIDTH_def twoRooms_rows)
  from pic [THEN spec, THEN mp, OF pre] obtain surface' where
    s: "paint (drawHit 540 1 roomA (mkWall 2 0 2 2 True 1) 1
                  @ drawHit 540 1 roomB (mkWall 4 0 4 2 False (- 1)) (299 / 100)) screen
             = Inr surface'
           \<and> (\<forall>r. 0 \<le> r \<and> r < 720 \<longrightarrow>
                 pixels surface' (r * (pitch screen sdiv 4) + 540) =
                   (if r < ceilingRow 1 roomB (299 / 100) then (100, 100, 255)
                    else if r < floorRow 1 roomB (299 / 100) then (255, 105, 180)
                    else (100, 255, 100)))
           \<and> (\<forall>i. (\<forall>r. 0 \<le> r \<and> r < 720 \<longrightarrow> i \<noteq> r * (pitch screen sdiv 4) + 540)
                  \<longrightarrow> pixels surface' i = pixels screen i)"
    by (rule exE)
  from s have run: "paint (drawHit 540 1 roomA (mkWall 2 0 2 2 True 1) 1
                  @ drawHit 540 1 roomB (mkWall 4 0 4 2 False (- 1)) (299 / 100)) screen
             = Inr surface'" by (rule conjunct1)
  from s have col: "\<forall>r. 0 \<le> r \<and> r < 720 \<longrightarrow>
                 pixels surface' (r * 1080 + 540) =
                   (if r < 0 then (100, 100, 255)
                    else if r < 600 then (255, 105, 180)
                    else (100, 255, 100))"
    unfolding screen_pitch twoRooms_rows by (rule conjunct1 [OF conjunct2])
  from s have keep: "\<forall>i. (\<forall>r. 0 \<le> r \<and> r < 720 \<longrightarrow> i \<noteq> r * 1080 + 540)
                  \<longrightarrow> pixels surface' i = pixels screen i"
    unfolding screen_pitch by (rule conjunct2 [OF conjunct2])
  have cc: "castColumn [roomA, roomB] 1 1 1 0 0 0.66 1 540 =
      Inr [drawHit 540 1 roomA (mkWall 2 0 2 2 True 1) 1,
           drawHit 540 1 roomB (mkWall 4 0 4 2 False (- 1)) (299 / 100)]"
    using calls by (simp add: castColumn_def SCREEN_WIDTH_def MAX_PORTAL_DEPTH_def)
  have rc: "renderColumn screen [roomA, roomB] 1 1 1 0 0 0.66 1 540 = Inr surface'"
    unfolding renderColumn_def cc using run by simp
  have p0: "pixels surface' (0 * 1080 + 540) = (255, 105, 180)"
    using col [THEN spec, of 0] by simp
  have p599: "pixels surface' (599 * 1080 + 540) = (255, 105, 180)"
    using col [THEN spec, of 599] by simp
  have p600: "pixels surface' (600 * 1080 + 540) = (100, 255, 100)"
    using col [THEN spec, of 600] by simp
  have p719: "pixels surface' (719 * 1080 + 540) = (100, 255, 100)"
    using col [THEN spec, of 719] by simp
  have "\<forall>r. 0 \<le> r \<and> r < 720 \<longrightarrow> (0::int) * 1080 + 539 \<noteq> r * 1080 + 540"
  proof (intro allI impI)
    fix r :: int
    show "(0::int) * 1080 + 539 \<noteq> r * 1080 + 540"
    proof
      assume "(0::int) * 1080 + 539 = r * 1080 + 540"
      then have "r * 1080 = - 1" by simp
      then have "(r * 1080) mod 1080 = (- 1) mod (1080::int)" by (simp only:)
      then show False by simp
    qed
  qed
  from keep [THEN spec, THEN mp, OF this]
  have other: "pixels surface' (0 * 1080 + 539) = (0, 0, 0)" by (simp add: screen_def)
  have pix: "\<exists>surface'. renderColumn screen [roomA, roomB] 1 1 1 0 0 0.66 1 540 = Inr surface'
         \<and> pixels surface' (0 * 1080 + 540) = (255, 105, 180)
         \<and> pixels surface' (599 * 1080 + 540) = (255, 105, 180)
         \<and> pixels surface' (600 * 1080 + 540) = (100, 255, 100)
         \<and> pixels surface' (719 * 1080 + 540) = (100, 255, 100)
         \<and> pixels surface' (0 * 1080 + 539) = (0, 0, 0)"
    apply (rule exI [of _ surface'])
    using rc p0 p599 p600 p719 other apply (intro conjI)
         apply assumption+
    done
  from twoRooms_hit1 mirror cc [unfolded drawHit_portal drawHit_far] far pix
  show ?thesis by (intro conjI)
qed

lemma corridor_walls:
  "walls (corridorSector i) =
     [mkWall (real_of_int i) 0 (real_of_int i + 1) 0 False (- 1),
      mkWall (real_of_int i + 1) 0 (real_of_int i + 1) 1 (i < 11) (if i < 11 then i + 1 else - 1),
      mkWall (real_of_int i + 1) 1 (real_of_int i) 1 False (- 1),
      mkWall (real_of_int i) 1 (real_of_int i) 0 (0 < i) (i - 1)]"
  by (simp add: corridorSector_def)

lemma corridor_length: "length corridor = 12"
  by (simp add: corridor_def)

lemma corridor_nth:
  "corridor ! 0 = corridorSector 0" "corridor ! Suc 0 = corridorSector 1"
  "corridor ! 2 = corridorSector 2" "corridor ! 3 = corridorSector 3"
  "corridor ! 4 = corridorSector 4" "corridor ! 5 = corridorSector 5"
  "corridor ! 6 = corridorSector 6" "corridor ! 7 = corridorSector 7"
  "corridor ! 8 = corridorSector 8" "corridor ! 9 = corridorSector 9"
  "corridor ! 10 = corridorSector 10" "corridor ! 11 = corridorSector 11"
  by (simp_all add: corridor_def)

lemma corridor_hit0: "nearestHit corridor (1 / 2) (1 / 2) 1 0 = Some (1 / 2, 0, 1)"
  by (simp add: scan_eval corridor_def corridor_walls)

lemma corridor_hit1: "nearestHit corridor (101 / 100) (1 / 2) 1 0 = Some (99 / 100, 1, 1)"
  by (simp add: scan_eval corridor_def corridor_walls)

lemma corridor_hit2: "nearestHit corridor (201 / 100) (1 / 2) 1 0 = Some (99 / 100, 2, 1)"
  by (simp add: scan_eval corridor_def corridor_walls)

lemma corridor_hit3: "nearestHit corridor (301 / 100) (1 / 2) 1 0 = Some (99 / 100, 3, 1)"
  by (simp add: scan_eval corridor_def corridor_walls)

lemma corridor_hit4: "nearestHit corridor (401 / 100) (1 / 2) 1 0 = Some (99 / 100, 4, 1)"
  by (simp add: scan_eval corridor_def corridor_walls)

lemma corridor_hit5: "nearestHit corridor (501 / 100) (1 / 2) 1 0 = Some (99 / 100, 5, 1)"
  by (simp add: scan_eval corridor_def corridor_walls)

lemma corridor_hit6: "nearestHit corridor (601 / 100) (1 / 2) 1 0 = Some (99 / 100, 6, 1)"
  by (simp add: scan_eval corridor_def corridor_walls)

lemma corridor_hit7: "nearestHit corridor (701 / 100) (1 / 2) 1 0 = Some (99 / 100, 7, 1)"
  by (simp add: scan_eval corridor_def corridor_walls)

lemma corridor_hit8: "nearestHit corridor (801 / 100) (1 / 2) 1 0 = Some (99 / 100, 8, 1)"
  by (simp add: scan_eval corridor_def corridor_walls)

lemma corridor_hit9: "nearestHit corridor (901 / 100) (1 / 2) 1 0 = Some (99 / 100, 9, 1)"
  by (simp add: scan_eval corridor_def corridor_walls)

lemma corridor_hit10: "nearestHit corridor (1001 / 100) (1 / 2) 1 0 = Some (99 / 100, 10, 1)"
  by (simp add: scan_eval corridor_def corridor_walls)

lemma corridor_hit11: "nearestHit corridor (1101 / 100) (1 / 2) 1 0 = Some (99 / 100, 11, 1)"
  by (simp add: scan_eval corridor_def corridor_walls)

lemmas corridor_hits = corridor_hit0 corridor_hit1 corridor_hit2 corridor_hit3 corridor_hit4 corridor_hit5 corridor_hit6 corridor_hit7 corridor_hit8 corridor_hit9 corridor_hit10 corridor_hit11

text \<open>The groups drawn along the corridor: the portal at \<open>x = k + 1\<close> is hit by step \<open>k\<close>.\<close>

lemma corridor_bound10:
  "portalLoop 10 corridor 540 1 1 0 0 (1 / 2) (1 / 2) 0 =
     Inr [drawHit 540 1 (corridorSector 0) (mkWall 1 0 1 1 True 1) (1 / 2),
          drawHit 540 1 (corridorSector 1) (mkWall 2 0 2 1 True 2) (149 / 100),
          drawHit 540 1 (corridorSector 2) (mkWall 3 0 3 1 True 3) (248 / 100),
          drawHit 540 1 (corridorSector 3) (mkWall 4 0 4 1 True 4) (347 / 100),
          drawHit 540 1 (corridorSector 4) (mkWall 5 0 5 1 True 5) (446 / 100),
          drawHit 540 1 (corridorSector 5) (mkWall 6 0 6 1 True 6) (545 / 100),
          drawHit 540 1 (corridorSector 6) (mkWall 7 0 7 1 True 7) (644 / 100),
          drawHit 540 1 (corridorSector 7) (mkWall 8 0 8 1 True 8) (743 / 100),
          drawHit 540 1 (corridorSector 8) (mkWall 9 0 9 1 True 9) (842 / 100),
          drawHit 540 1 (corridorSector 9) (mkWall 10 0 10 1 True 10) (941 / 100)]"
  by (simp add: portalLoop.simps corridor_hits vecAt_def corridor_length corridor_nth
        corridor_walls mkWall_sel)

lemma corridor_bound12:
  "portalLoop (10 + 2) corridor 540 1 1 0 0 (1 / 2) (1 / 2) 0 =
     Inr [drawHit 540 1 (corridorSector 0) (mkWall 1 0 1 1 True 1) (1 / 2),
          drawHit 540 1 (corridorSector 1) (mkWall 2 0 2 1 True 2) (149 / 100),
          drawHit 540 1 (corridorSector 2) (mkWall 3 0 3 1 True 3) (248 / 100),
          drawHit 540 1 (corridorSector 3) (mkWall 4 0 4 1 True 4) (347 / 100),
          drawHit 540 1 (corridorSector 4) (mkWall 5 0 5 1 True 5) (446 / 100),
          drawHit 540 1 (corridorSector 5) (mkWall 6 0 6 1 True 6) (545 / 100),
          drawHit 540 1 (corridorSector 6) (mkWall 7 0 7 1 True 7) (644 / 100),
          drawHit 540 1 (corridorSector 7) (mkWall 8 0 8 1 True 8) (743 / 100),
          drawHit 540 1 (corridorSector 8) (mkWall 9 0 9 1 True 9) (842 / 100),
          drawHit 540 1 (corridorSector 9) (mkWall 10 0 10 1 True 10) (941 / 100),
          drawHit 540 1 (corridorSector 10) (mkWall 11 0 11 1 True 11) (1040 / 100),
          drawHit 540 1 (corridorSector 11) (mkWall 12 0 12 1 False (- 1)) (1139 / 100)]"
  by (simp add: portalLoop.simps corridor_hits vecAt_def corridor_length corridor_nth
        corridor_walls mkWall_sel)

text \<open>
  C6. The portal loop of a column runs at most \<^verbatim>\<open>MAX_PORTAL_DEPTH\<close> = 10 iterations, each
  issuing exactly three draw calls, so a column issues at most 30; what it draws is the
  first ten iterations of what any larger bound would draw; and it always returns. The
  loop is a total function: its termination is proved with the measure
  \<open>maxDepth - depth\<close>.
\<close>

theorem portal_depth_bound:
  "MAX_PORTAL_DEPTH = 10
   \<and> (\<exists>gs. portalLoop MAX_PORTAL_DEPTH sectors x ph dX dY 0 rX rY tot = Inr gs
         \<and> length gs \<le> 10 \<and> (\<forall>g\<in>set gs. length g = 3) \<and> length (concat gs) \<le> 30
         \<and> (\<forall>k gs'. 0 \<le> k
               \<and> portalLoop (MAX_PORTAL_DEPTH + k) sectors x ph dX dY 0 rX rY tot = Inr gs'
               \<longrightarrow> gs = take 10 gs'))
   \<and> (\<exists>gs. castColumn sectors posX posY dirX dirY planeX planeY ph x = Inr gs
         \<and> length gs \<le> 10 \<and> length (concat gs) \<le> 30)"
proof -
  have bound: "length gs \<le> 10 \<and> (\<forall>g\<in>set gs. length g = 3) \<and> length (concat gs) \<le> 30"
    if "portalLoop 10 sectors x ph dX dY 0 rX rY tot = Inr gs" for dX dY rX rY tot gs
  proof -
    from portalLoop_bound [OF that]
    have l: "length gs \<le> 10" and g: "\<forall>g\<in>set gs. length g = 3" by simp_all
    from g have "map length gs = replicate (length gs) 3"
      by (induction gs) simp_all
    then have "length (concat gs) = 3 * length gs"
      by (simp add: length_concat sum_list_replicate)
    with l g show ?thesis by simp
  qed
  have first: "\<exists>gs. portalLoop MAX_PORTAL_DEPTH sectors x ph dX dY 0 rX rY tot = Inr gs
         \<and> length gs \<le> 10 \<and> (\<forall>g\<in>set gs. length g = 3) \<and> length (concat gs) \<le> 30
         \<and> (\<forall>k gs'. 0 \<le> k
               \<and> portalLoop (MAX_PORTAL_DEPTH + k) sectors x ph dX dY 0 rX rY tot = Inr gs'
               \<longrightarrow> gs = take 10 gs')"
  proof -
    obtain gs where gs: "portalLoop 10 sectors x ph dX dY 0 rX rY tot = Inr gs"
      using portalLoop_total by blast
    have "gs = take 10 gs'"
      if "0 \<le> k" "portalLoop (10 + k) sectors x ph dX dY 0 rX rY tot = Inr gs'" for k gs'
      using portalLoop_prefix [OF that(1) gs that(2)] by simp
    with gs bound [OF gs] show ?thesis
      unfolding MAX_PORTAL_DEPTH_def by blast
  qed
  have second: "\<exists>gs. castColumn sectors posX posY dirX dirY planeX planeY ph x = Inr gs
         \<and> length gs \<le> 10 \<and> length (concat gs) \<le> 30"
  proof -
    obtain gs where gs: "castColumn sectors posX posY dirX dirY planeX planeY ph x = Inr gs"
      using castColumn_total by blast
    then have "portalLoop 10 sectors x ph
        (dirX + planeX * (2.0 * real_of_int x / real_of_int SCREEN_WIDTH - 1))
        (dirY + planeY * (2.0 * real_of_int x / real_of_int SCREEN_WIDTH - 1)) 0 posX posY 0
        = Inr gs"
      by (simp add: castColumn_def Let_def MAX_PORTAL_DEPTH_def)
    from bound [OF this] gs show ?thesis by blast
  qed
  from first second show ?thesis by (simp add: MAX_PORTAL_DEPTH_def)
qed

theorem portal_depth_bound_witness:
  "(\<exists>gs gs'. castColumn corridor (1 / 2) (1 / 2) 1 0 0 0.66 1 540 = Inr gs
       \<and> portalLoop (MAX_PORTAL_DEPTH + 2) corridor 540 1 1 0 0 (1 / 2) (1 / 2) 0 = Inr gs'
       \<and> length gs' = 12 \<and> length gs = 10 \<and> length (concat gs) = 30 \<and> gs = take 10 gs')"
proof -
  note t = portal_depth_bound [where sectors = corridor and x = 540 and ph = 1 and dX = 1
      and dY = 0 and rX = "1 / 2" and rY = "1 / 2" and tot = 0]
  from t have "\<exists>gs. portalLoop MAX_PORTAL_DEPTH corridor 540 1 1 0 0 (1 / 2) (1 / 2) 0 = Inr gs
         \<and> length gs \<le> 10 \<and> (\<forall>g\<in>set gs. length g = 3) \<and> length (concat gs) \<le> 30
         \<and> (\<forall>k gs'. 0 \<le> k
               \<and> portalLoop (MAX_PORTAL_DEPTH + k) corridor 540 1 1 0 0 (1 / 2) (1 / 2) 0 = Inr gs'
               \<longrightarrow> gs = take 10 gs')"
    by (rule conjunct1 [OF conjunct2])
  then obtain gs where g: "portalLoop MAX_PORTAL_DEPTH corridor 540 1 1 0 0 (1 / 2) (1 / 2) 0 = Inr gs
         \<and> length gs \<le> 10 \<and> (\<forall>g\<in>set gs. length g = 3) \<and> length (concat gs) \<le> 30
         \<and> (\<forall>k gs'. 0 \<le> k
               \<and> portalLoop (MAX_PORTAL_DEPTH + k) corridor 540 1 1 0 0 (1 / 2) (1 / 2) 0 = Inr gs'
               \<longrightarrow> gs = take 10 gs')"
    by (rule exE)
  from g have gs: "portalLoop MAX_PORTAL_DEPTH corridor 540 1 1 0 0 (1 / 2) (1 / 2) 0 = Inr gs"
    by (rule conjunct1)
  from g have three: "\<forall>g\<in>set gs. length g = 3"
    by (rule conjunct1 [OF conjunct2 [OF conjunct2]])
  from g have pre: "\<forall>k gs'. 0 \<le> k
        \<and> portalLoop (MAX_PORTAL_DEPTH + k) corridor 540 1 1 0 0 (1 / 2) (1 / 2) 0 = Inr gs'
        \<longrightarrow> gs = take 10 gs'"
    by (rule conjunct2 [OF conjunct2 [OF conjunct2 [OF conjunct2]]])
  have gs': "portalLoop (MAX_PORTAL_DEPTH + 2) corridor 540 1 1 0 0 (1 / 2) (1 / 2) 0
      = Inr [drawHit 540 1 (corridorSector 0) (mkWall 1 0 1 1 True 1) (1 / 2),
          drawHit 540 1 (corridorSector 1) (mkWall 2 0 2 1 True 2) (149 / 100),
          drawHit 540 1 (corridorSector 2) (mkWall 3 0 3 1 True 3) (248 / 100),
          drawHit 540 1 (corridorSector 3) (mkWall 4 0 4 1 True 4) (347 / 100),
          drawHit 540 1 (corridorSector 4) (mkWall 5 0 5 1 True 5) (446 / 100),
          drawHit 540 1 (corridorSector 5) (mkWall 6 0 6 1 True 6) (545 / 100),
          drawHit 540 1 (corridorSector 6) (mkWall 7 0 7 1 True 7) (644 / 100),
          drawHit 540 1 (corridorSector 7) (mkWall 8 0 8 1 True 8) (743 / 100),
          drawHit 540 1 (corridorSector 8) (mkWall 9 0 9 1 True 9) (842 / 100),
          drawHit 540 1 (corridorSector 9) (mkWall 10 0 10 1 True 10) (941 / 100),
          drawHit 540 1 (corridorSector 10) (mkWall 11 0 11 1 True 11) (1040 / 100),
          drawHit 540 1 (corridorSector 11) (mkWall 12 0 12 1 False (- 1)) (1139 / 100)]"
    (is "_ = Inr ?gs'")
    unfolding MAX_PORTAL_DEPTH_def by (rule corridor_bound12)
  have l': "length ?gs' = 12" by simp
  from pre [rule_format, of 2 ?gs'] gs' have tk: "gs = take 10 ?gs'" by simp
  then have l: "length gs = 10" by simp
  from three have "map length gs = replicate (length gs) 3"
    by (induction gs) simp_all
  then have c: "length (concat gs) = 30"
    using l by (simp add: length_concat sum_list_replicate)
  have cc: "castColumn corridor (1 / 2) (1 / 2) 1 0 0 0.66 1 540 = Inr gs"
    using gs by (simp add: castColumn_def SCREEN_WIDTH_def)
  show ?thesis
    apply (rule exI [of _ gs])
    apply (rule exI [of _ ?gs'])
    using cc gs' l' l c tk apply (intro conjI)
         apply assumption+
    done
qed

section \<open>A portal to a sector that does not exist\<close>

text \<open>
  A portal whose adjoining-sector index is out of range ends the loop of the column: the
  index is only compared with the bounds, the sector and the wall that the step does
  dereference are in bounds, and the calls of the step are the last of the column.
\<close>

lemma dangling_portal_ends_column:
  assumes "depth < m" and "nearestHit sectors rX rY dX dY = Some (d, si, wi)"
    and "isPortal (walls (sectors ! nat si) ! wi)"
    and "adjoiningSector (walls (sectors ! nat si) ! wi) < 0
         \<or> int (length sectors) \<le> adjoiningSector (walls (sectors ! nat si) ! wi)"
  shows "vecAt sectors si = Inr (sectors ! nat si)"
    and "vecAt (walls (sectors ! nat si)) (int wi) = Inr (walls (sectors ! nat si) ! wi)"
    and "portalLoop m sectors x ph dX dY depth rX rY tot =
           Inr [drawHit x ph (sectors ! nat si) (walls (sectors ! nat si) ! wi) (tot + d)]"
proof -
  from nearestHit_accesses [OF assms(2)]
  show "vecAt sectors si = Inr (sectors ! nat si)"
    "vecAt (walls (sectors ! nat si)) (int wi) = Inr (walls (sectors ! nat si) ! wi)"
    by simp_all
  from assms(4) have "\<not> isPortal (walls (sectors ! nat si) ! wi)
         \<or> adjoiningSector (walls (sectors ! nat si) ! wi) < 0
         \<or> adjoiningSector (walls (sectors ! nat si) ! wi) \<ge> int (length sectors)"
    by blast
  from portalLoop_stop [OF assms(1,2) this]
  show "portalLoop m sectors x ph dX dY depth rX rY tot =
          Inr [drawHit x ph (sectors ! nat si) (walls (sectors ! nat si) ! wi) (tot + d)]" .
qed

text \<open>The calls of a hit stay in the buffer when its ceiling edge is not below its floor edge.\<close>

lemma paint_drawHit_no_fault:
  assumes "holdsScreen surface" and "0 \<le> x" and "x < SCREEN_WIDTH"
    and "ceilingRow ph s D \<le> floorRow ph s D"
  shows "\<exists>surface'. paint (drawHit x ph s w D) surface = Inr surface'"
  using paint_drawHit [OF assms, of w] by blast

text \<open>
  With the ceiling at height 3 the same column is drawn within the buffer: the portal to
  the missing sector 7 ends the column and nothing faults.
\<close>

lemma danglingRoom_column:
  "castColumn [danglingRoom 7] 1 1 1 0 0 0.66 1 540 =
     Inr [drawHit 540 1 (danglingRoom 7) (mkWall 2 0 2 2 True 7) 1]
   \<and> (\<exists>surface'. renderColumn screen [danglingRoom 7] 1 1 1 0 0 0.66 1 540 = Inr surface')"
proof -
  have w: "walls (danglingRoom 7) =
     [mkWall 0 0 2 0 False (- 1), mkWall 2 0 2 2 True 7,
      mkWall 2 2 0 2 False (- 1), mkWall 0 2 0 0 False (- 1)]"
    by (simp add: danglingRoom_def)
  have h: "nearestHit [danglingRoom 7] 1 1 1 0 = Some (1, 0, 1)"
    by (simp add: scan_eval w)
  have "portalLoop 10 [danglingRoom 7] 540 1 1 0 0 1 1 0 =
      Inr [drawHit 540 1 ([danglingRoom 7] ! nat 0) (walls ([danglingRoom 7] ! nat 0) ! 1) (0 + 1)]"
    by (rule dangling_portal_ends_column(3) [OF _ h]) (simp_all add: w mkWall_sel)
  then have c: "castColumn [danglingRoom 7] 1 1 1 0 0 0.66 1 540 =
     Inr [drawHit 540 1 (danglingRoom 7) (mkWall 2 0 2 2 True 7) 1]"
    by (simp add: castColumn_def SCREEN_WIDTH_def MAX_PORTAL_DEPTH_def w)
  have "ceilingRow 1 (danglingRoom 7) 1 \<le> floorRow 1 (danglingRoom 7) 1"
    by (simp add: row_eval danglingRoom_def)
  from paint_drawHit_no_fault [OF screen_holds _ _ this, of 540 "mkWall 2 0 2 2 True 7"]
  have "\<exists>surface'. paint (drawHit 540 1 (danglingRoom 7) (mkWall 2 0 2 2 True 7) 1) screen
      = Inr surface'"
    by (simp add: SCREEN_WIDTH_def)
  then have "\<exists>surface'. renderColumn screen [danglingRoom 7] 1 1 1 0 0 0.66 1 540 = Inr surface'"
    unfolding renderColumn_def c by simp
  with c show ?thesis by (intro conjI)
qed









section \<open>Properties of the editor\<close>

lemma eachWall_length: "length (eachWall f sectors) = length sectors"
  by (simp add: eachWall_def)

lemma eachWall_nth:
  "i < length sectors \<Longrightarrow> wallsE (eachWall f sectors ! i) = map f (wallsE (sectors ! i))"
  by (simp add: eachWall_def)

lemma erase_nth:
  "k < length xs \<Longrightarrow> i < length xs - 1 \<Longrightarrow>
   erase xs k ! i = (if i < k then xs ! i else xs ! Suc i)"
  by (auto simp: erase_def nth_append min_def)

lemma erase_length: "k < length xs \<Longrightarrow> length (erase xs k) = length xs - 1"
  by (auto simp: erase_def)

text \<open>
  What \<^verbatim>\<open>deleteSector\<close> does to the walls of a surviving sector: both loops are applied
  to it, so a portal into a sector more than one place behind the deleted one is
  renumbered twice.
\<close>

lemma deleteSector_walls:
  assumes "0 \<le> k" and "k < int (length sectors)" and "i < length sectors - 1"
  shows "wallsE (deleteSector k sectors ! i) =
         map (shiftAgain k \<circ> unlinkOrShift k)
           (wallsE (sectors ! (if i < nat k then i else Suc i)))"
proof -
  let ?s1 = "eachWall (unlinkOrShift k) sectors"
  have k: "nat k < length ?s1" using assms by (simp add: eachWall_length)
  have i: "i < length ?s1 - 1" using assms by (simp add: eachWall_length)
  have "wallsE (deleteSector k sectors ! i) = map (shiftAgain k) (wallsE (erase ?s1 (nat k) ! i))"
    using assms k i by (simp add: deleteSector_def eachWall_nth erase_length)
  also have "erase ?s1 (nat k) ! i = ?s1 ! (if i < nat k then i else Suc i)"
    using erase_nth [OF k i] by simp
  also have "wallsE (?s1 ! (if i < nat k then i else Suc i)) =
      map (unlinkOrShift k) (wallsE (sectors ! (if i < nat k then i else Suc i)))"
    using assms by (intro eachWall_nth) auto
  finally show ?thesis by simp
qed

lemma renumber_twice:
  "isPortalE w \<Longrightarrow> adjoiningSectorE w > k + 1 \<Longrightarrow>
   adjoiningSectorE ((shiftAgain k \<circ> unlinkOrShift k) w) = adjoiningSectorE w - 2
   \<and> isPortalE ((shiftAgain k \<circ> unlinkOrShift k) w)"
  by (simp add: shiftAgain_def unlinkOrShift_def)

lemma renumber_once:
  "isPortalE w \<Longrightarrow> adjoiningSectorE w = k + 1 \<Longrightarrow>
   adjoiningSectorE ((shiftAgain k \<circ> unlinkOrShift k) w) = k
   \<and> isPortalE ((shiftAgain k \<circ> unlinkOrShift k) w)"
  by (simp add: shiftAgain_def unlinkOrShift_def)

lemma renumber_unlink:
  "isPortalE w \<Longrightarrow> adjoiningSectorE w = k \<Longrightarrow>
   adjoiningSectorE ((shiftAgain k \<circ> unlinkOrShift k) w) = - 1
   \<and> \<not> isPortalE ((shiftAgain k \<circ> unlinkOrShift k) w)"
  by (simp add: shiftAgain_def unlinkOrShift_def)

text \<open>
  C9 (the code at the failing input). Deleting sector 0 of three sectors, where the second
  has a portal into the third (index 2): the third sector moves to index 1, but the portal
  ends with \<^verbatim>\<open>adjoiningSector\<close> 0 and not 1, because both loops decrement it. It now
  refers to its own sector.
\<close>

theorem deleteSector_renumbers_twice:
  "deleteSector 0 threeSectors =
     [\<lparr>wallsE = [portalTo 0], floorHeightE = 1, ceilingHeightE = 4\<rparr>,
      \<lparr>wallsE = [], floorHeightE = 2, ceilingHeightE = 4\<rparr>]
   \<and> adjoiningSectorE (hd (wallsE (threeSectors ! 1))) = 2
   \<and> adjoiningSectorE (hd (wallsE (deleteSector 0 threeSectors ! 0))) = 0"
  by (simp add: deleteSector_def threeSectors_def eachWall_def erase_def unlinkOrShift_def
        shiftAgain_def portalTo_def)

section \<open>Numbers written by saveMap are read back by loadMap\<close>



























section \<open>A saved collection is loaded back\<close>















section \<open>Evaluation of the floating-point formatting\<close>


lemma exponentDown_numeral:
  "exponentDown (numeral k) v e = (if 1 \<le> v then e else exponentDown (pred_numeral k) (v * 10) (e - 1))"
  by (simp add: numeral_eq_Suc)


















section \<open>What the two loaders do at a malformed line\<close>



lemma readWalls_eof: "readWalls (Suc n) [] ws = None"
  by (simp add: getline_def)









section \<open>The round trip of saveMap and loadMap\<close>







section \<open>Load failures\<close>











end
